theory Spec2Isabelle
  imports Complex_Main "HOL-Library.Sublist"
begin

section \<open>Strings and numbers of the source language\<close>

text \<open>
  A source string is modelled as a \<^typ>\<open>string\<close>: one \<^typ>\<open>char\<close> per code unit
  (code units below 256), so that \<open>length\<close> is the source's \<open>.length\<close>. Token counts,
  depths, step numbers and limits are integral numbers and are modelled as \<^typ>\<open>int\<close>.
\<close>

definition newline :: string where
  "newline = [CHR 0x0A]"

definition digit_char :: "nat \<Rightarrow> char" where
  "digit_char d = ''0123456789'' ! d"

function show_nat :: "nat \<Rightarrow> string" where
  "show_nat n = (if n < 10 then [digit_char n] else show_nat (n div 10) @ [digit_char (n mod 10)])"
  by pat_completeness auto
termination
  by (relation "measure id") auto

text \<open>The decimal text that a template literal produces for an integral number.\<close>

definition show_int :: "int \<Rightarrow> string" where
  "show_int i = (if i < 0 then CHR ''-'' # show_nat (nat (- i)) else show_nat (nat i))"

text \<open>
  \<open>text.slice(start)\<close> with one argument: a negative start counts from the end and is
  clamped at the beginning, a non-negative start is clamped at the end. The argument
  \<open>-0\<close> is the number zero, so it is not negative.
\<close>

definition slice_from :: "int \<Rightarrow> string \<Rightarrow> string" where
  "slice_from start text =
     (let len = int (length text);
          from = (if start < 0 then max (len + start) 0 else min start len)
      in drop (nat from) text)"

fun startsWith :: "string \<Rightarrow> string \<Rightarrow> bool" where
  "startsWith text [] = True"
| "startsWith [] (p # ps) = False"
| "startsWith (c # cs) (p # ps) = (c = p \<and> startsWith cs ps)"

text \<open>\<open>text.includes(pat)\<close>: does \<open>pat\<close> occur at some position of \<open>text\<close>.\<close>

fun includes_str :: "string \<Rightarrow> string \<Rightarrow> bool" where
  "includes_str [] pat = (pat = [])"
| "includes_str (c # cs) pat = (startsWith (c # cs) pat \<or> includes_str cs pat)"

text \<open>\<open>text.trim()\<close>: white space is removed at both ends.\<close>

definition is_space :: "char \<Rightarrow> bool" where
  "is_space c = (c \<in> set [CHR 0x09, CHR 0x0A, CHR 0x0B, CHR 0x0C, CHR 0x0D, CHR 0x20, CHR 0xA0])"

definition trim :: "string \<Rightarrow> string" where
  "trim s = rev (dropWhile is_space (rev (dropWhile is_space s)))"

text \<open>
  A thrown value is an \<open>Error\<close> object with its message, or some other value with its
  string conversion.
\<close>

datatype thrown = ErrorObject string | NonError string

section \<open>Output truncation (subagents.ts, truncateText)\<close>

text \<open>The module constant \<open>TRUNCATE_LEN\<close> is the first argument.\<close>

definition truncateText :: "int \<Rightarrow> string \<Rightarrow> string" where
  "truncateText TRUNCATE_LEN text =
     (if int (length text) > TRUNCATE_LEN
      then ''[TRUNCATED: Last '' @ show_int TRUNCATE_LEN @ '' chars shown].. ''
             @ slice_from (- TRUNCATE_LEN) text
      else if length text = 0 then ''[EMPTY OUTPUT]''
      else ''[FULL OUTPUT SHOWN]... '' @ text)"

section \<open>The usage accumulator (usage.ts)\<close>

text \<open>
  The cost of a usage record has the type \<open>number | undefined\<close>. A number that is not
  \<open>NaN\<close> is modelled as a rational (rounding of the floating-point sum is left out);
  \<open>NaN\<close> and \<open>undefined\<close> are values of their own.
\<close>

datatype jsnumber = Undefined | Num rat | NaN

text \<open>The operator \<open>+\<close> on such values: anything but two numbers gives \<open>NaN\<close>.\<close>

fun js_add :: "jsnumber \<Rightarrow> jsnumber \<Rightarrow> jsnumber" where
  "js_add (Num a) (Num b) = Num (a + b)"
| "js_add _ _ = NaN"

record Usage =
  prompt_tokens :: int
  completion_tokens :: int
  total_tokens :: int
  cached_tokens :: int
  reasoning_tokens :: int
  cost :: jsnumber

definition zeroUsage :: Usage where
  "zeroUsage = \<lparr>prompt_tokens = 0, completion_tokens = 0, total_tokens = 0,
                 cached_tokens = 0, reasoning_tokens = 0, cost = Num 0\<rparr>"

text \<open>The module variable \<open>globalUsage\<close> is passed in and returned.\<close>

definition trackUsage :: "Usage \<Rightarrow> Usage \<Rightarrow> Usage" where
  "trackUsage usage globalUsage =
     globalUsage\<lparr>prompt_tokens := prompt_tokens globalUsage + prompt_tokens usage,
                 completion_tokens := completion_tokens globalUsage + completion_tokens usage,
                 total_tokens := total_tokens globalUsage + total_tokens usage,
                 cached_tokens := cached_tokens globalUsage + cached_tokens usage,
                 reasoning_tokens := reasoning_tokens globalUsage + reasoning_tokens usage,
                 cost := js_add (cost globalUsage) (cost usage)\<rparr>"

definition getTotalUsage :: "Usage \<Rightarrow> Usage" where
  "getTotalUsage globalUsage = globalUsage"

definition resetUsage :: "Usage \<Rightarrow> Usage" where
  "resetUsage globalUsage = zeroUsage"

text \<open>A sequence of \<open>trackUsage\<close> calls, oldest first.\<close>

definition trackAll :: "Usage list \<Rightarrow> Usage \<Rightarrow> Usage" where
  "trackAll deltas globalUsage = foldl (\<lambda>g u. trackUsage u g) globalUsage deltas"

text \<open>The value of a cost that is a number (0 otherwise), to state sums of costs.\<close>

fun cost_value :: "jsnumber \<Rightarrow> rat" where
  "cost_value (Num c) = c"
| "cost_value _ = 0"

fun is_Num :: "jsnumber \<Rightarrow> bool" where
  "is_Num (Num c) = True"
| "is_Num _ = False"

section \<open>The parallel batch scheduler (parallel.ts)\<close>

text \<open>
  The fields \<open>id\<close> and \<open>context\<close> of a pending query are called \<open>query_id\<close> and
  \<open>query_context\<close>. The \<open>resolve\<close> and \<open>reject\<close> functions of a pending query settle
  the promise that \<open>queueQuery\<close> returned for it; the promise is identified by the
  query's id.
\<close>

record ParallelConfig =
  maxParallelChildren :: int
  batchWindowMs :: int
  maxBudget :: rat
  currentDepth :: int
  maxDepth :: int

record PendingQuery =
  query_id :: string
  query_context :: string
  queuedAt :: int

record ParallelExecutionResult =
  results :: "unit list"
  parallelGroupId :: string
  executionTimeMs :: int
  queryCount :: int

record Stats =
  totalQueries :: int
  parallelBatches :: int
  sequentialQueries :: int
  totalParallelQueries :: int

text \<open>
  What \<open>subagentFn\<close> or a callback throws, and what a promise is rejected with, is any
  value: a value as above, or a value whose conversion to a string throws in its turn
  (an object without a usable \<open>toString\<close>, such as \<open>Object.create(null)\<close>); the latter
  is given with the value that the conversion throws.
\<close>

datatype reason = Value thrown | Unprintable reason

text \<open>
  \<open>reason instanceof Error ? reason : new Error(String(reason))\<close>: the \<open>Error\<close> object
  on the right, or on the left what the conversion throws.
\<close>

fun toError :: "reason \<Rightarrow> reason + thrown" where
  "toError (Value (ErrorObject m)) = Inr (ErrorObject m)"
| "toError (Value (NonError s)) = Inr (ErrorObject s)"
| "toError (Unprintable t) = Inl t"

text \<open>A settled promise, as \<open>Promise.allSettled\<close> reports it.\<close>

datatype 'v settled = Fulfilled 'v | Rejected reason

text \<open>
  A call of \<open>subagentFn\<close>, a function to a promise, either throws before it returns or
  returns a promise, which is taken to settle. (A function declared \<open>async\<close> always
  returns a promise; the type of \<open>subagentFn\<close> does not ask for one.)
\<close>

datatype 'v called = Throws reason | Promise "'v settled"

text \<open>
  What the executor does to the outside is recorded as a trace of events: a call of
  \<open>subagentFn\<close> with a context and an optional group id, the settling of a query's
  promise, and the calls of the two optional callbacks.
\<close>

datatype 'v event =
    is_Exec: Exec string "string option"
  | is_Resolve: Resolve string 'v
  | is_Reject: Reject string thrown
  | is_ParallelStart: ParallelStart string int
  | is_ParallelComplete: ParallelComplete string ParallelExecutionResult

text \<open>
  The executor. \<open>pendingQueries\<close> is the \<open>Map\<close> in insertion order. A callback, when
  it was supplied, returns (\<open>None\<close>) or throws. \<open>groupIdsGenerated\<close> counts the calls
  of \<open>generateParallelGroupId\<close>.
\<close>

record 'v ParallelExecutor =
  pendingQueries :: "(string \<times> PendingQuery) list"
  batchTimeout :: "int option"
  config :: ParallelConfig
  onParallelStart :: "(string \<Rightarrow> int \<Rightarrow> reason option) option"
  onParallelComplete :: "(string \<Rightarrow> ParallelExecutionResult \<Rightarrow> reason option) option"
  stats :: Stats
  groupIdsGenerated :: nat
  trace :: "'v event list"

definition emit :: "'v event list \<Rightarrow> 'v ParallelExecutor \<Rightarrow> 'v ParallelExecutor" where
  "emit es ex = ex\<lparr>trace := trace ex @ es\<rparr>"

text \<open>
  An optional callback \<open>cb?.(args)\<close>: when it was supplied it is called, and the call is
  recorded with the arguments it is given. The result is what the call throws, if
  anything.
\<close>

definition call_onParallelStart ::
  "(string \<Rightarrow> int \<Rightarrow> reason option) option \<Rightarrow> string \<Rightarrow> int \<Rightarrow> reason option \<times> 'v event list" where
  "call_onParallelStart cb groupId n =
     (case cb of None \<Rightarrow> (None, []) | Some f \<Rightarrow> (f groupId n, [ParallelStart groupId n]))"

definition call_onParallelComplete ::
  "(string \<Rightarrow> ParallelExecutionResult \<Rightarrow> reason option) option \<Rightarrow> string
     \<Rightarrow> ParallelExecutionResult \<Rightarrow> reason option \<times> 'v event list" where
  "call_onParallelComplete cb groupId res =
     (case cb of None \<Rightarrow> (None, []) | Some f \<Rightarrow> (f groupId res, [ParallelComplete groupId res]))"

text \<open>\<open>this.stats.sequentialQueries++\<close>, and the two updates of the parallel branch.\<close>

definition count_sequential :: "'v ParallelExecutor \<Rightarrow> 'v ParallelExecutor" where
  "count_sequential ex =
     ex\<lparr>stats := (stats ex)\<lparr>sequentialQueries := sequentialQueries (stats ex) + 1\<rparr>\<rparr>"

definition count_parallel :: "nat \<Rightarrow> 'v ParallelExecutor \<Rightarrow> 'v ParallelExecutor" where
  "count_parallel n ex =
     ex\<lparr>stats := (stats ex)\<lparr>parallelBatches := parallelBatches (stats ex) + 1,
                              totalParallelQueries := totalParallelQueries (stats ex) + int n\<rparr>\<rparr>"

text \<open>
  The group id is built from the clock and a random number; \<open>genId n\<close> stands for the
  id that the \<open>n\<close>-th call returns.
\<close>

definition generateParallelGroupId ::
  "(nat \<Rightarrow> string) \<Rightarrow> 'v ParallelExecutor \<Rightarrow> string \<times> 'v ParallelExecutor" where
  "generateParallelGroupId genId ex =
     (genId (groupIdsGenerated ex), ex\<lparr>groupIdsGenerated := groupIdsGenerated ex + 1\<rparr>)"

text \<open>\<open>queries.slice(i, j)\<close> for \<open>i \<le> j\<close>.\<close>

definition slice :: "nat \<Rightarrow> nat \<Rightarrow> 'a list \<Rightarrow> 'a list" where
  "slice i j xs = take (j - i) (drop i xs)"

text \<open>
  \<open>for (let i = 0; i < queries.length; i += maxParallel) batches.push(...)\<close>. With
  \<open>maxParallel = 0\<close> the loop would never end, so the result is an option.
\<close>

partial_function (option) batches_loop ::
  "nat \<Rightarrow> 'a list \<Rightarrow> nat \<Rightarrow> 'a list list \<Rightarrow> 'a list list option" where
  "batches_loop maxParallel queries i batches =
     (if i < length queries
      then batches_loop maxParallel queries (i + maxParallel)
             (batches @ [slice i (i + maxParallel) queries])
      else Some batches)"

declare batches_loop.simps [code]

text \<open>
  A call of \<open>subagentFn\<close>, the function that runs a sub-agent on a context; it is a
  parameter. The call is recorded with the arguments it is given.
\<close>

definition invoke ::
  "(string \<Rightarrow> string option \<Rightarrow> 'v called) \<Rightarrow> string \<Rightarrow> string option \<Rightarrow> 'v called \<times> 'v event list" where
  "invoke subagentFn ctx groupId = (subagentFn ctx groupId, [Exec ctx groupId])"

text \<open>
  \<open>batch.map(([id, query]) => this.subagentFn(query.context, parallelGroupId))\<close>: the
  calls are made in the order of the batch. The \<open>map\<close> stands in no \<open>try\<close> block, so a
  call that throws ends it: the members after it are not called, and the exception (on
  the left) leaves \<open>flushBatch\<close>. Otherwise \<open>Promise.allSettled\<close> gives the settled
  promises of all calls.
\<close>

fun batch_map ::
  "(string \<Rightarrow> string option \<Rightarrow> 'v called) \<Rightarrow> string \<Rightarrow> (string \<times> PendingQuery) list
     \<Rightarrow> (reason + 'v settled list) \<times> 'v event list" where
  "batch_map subagentFn groupId [] = (Inr [], [])"
| "batch_map subagentFn groupId ((key, query) # rest) =
     (case invoke subagentFn (query_context query) (Some groupId) of
        (Throws e, evs) \<Rightarrow> (Inl e, evs)
      | (Promise p, evs) \<Rightarrow>
          (case batch_map subagentFn groupId rest of
             (Inl e, evs') \<Rightarrow> (Inl e, evs @ evs')
           | (Inr ps, evs') \<Rightarrow> (Inr (p # ps), evs @ evs')))"

text \<open>
  \<open>results.forEach((result, i) => ...)\<close>: the promise of member \<open>batch[i]\<close> is resolved
  or rejected by the \<open>i\<close>-th result, in order. A conversion of a rejection reason that
  throws ends the \<open>forEach\<close>, and the exception leaves \<open>flushBatch\<close>. There are as
  many results as members; the last equation is for completeness only.
\<close>

fun results_forEach ::
  "(string \<times> PendingQuery) list \<Rightarrow> 'v settled list \<Rightarrow> reason option \<times> 'v event list" where
  "results_forEach ((key, query) # batch) (Fulfilled v # rest) =
     (case results_forEach batch rest of (t, evs) \<Rightarrow> (t, Resolve (query_id query) v # evs))"
| "results_forEach ((key, query) # batch) (Rejected r # rest) =
     (case toError r of
        Inl t \<Rightarrow> (Some t, [])
      | Inr err \<Rightarrow>
          (case results_forEach batch rest of (t, evs) \<Rightarrow> (t, Reject (query_id query) err # evs)))"
| "results_forEach batch [] = (None, [])"
| "results_forEach [] (result # rest) = (None, [])"

text \<open>One batch, and \<open>for (const batch of batches)\<close>.\<close>

definition run_batch ::
  "(string \<Rightarrow> string option \<Rightarrow> 'v called) \<Rightarrow> string \<Rightarrow> (string \<times> PendingQuery) list
     \<Rightarrow> reason option \<times> 'v event list" where
  "run_batch subagentFn groupId batch =
     (case batch_map subagentFn groupId batch of
        (Inl e, evs) \<Rightarrow> (Some e, evs)
      | (Inr settled, evs) \<Rightarrow>
          (case results_forEach batch settled of (t, evs') \<Rightarrow> (t, evs @ evs')))"

fun run_batches ::
  "(string \<Rightarrow> string option \<Rightarrow> 'v called) \<Rightarrow> string \<Rightarrow> (string \<times> PendingQuery) list list
     \<Rightarrow> reason option \<times> 'v event list" where
  "run_batches subagentFn groupId [] = (None, [])"
| "run_batches subagentFn groupId (batch # rest) =
     (case run_batch subagentFn groupId batch of
        (Some e, evs) \<Rightarrow> (Some e, evs)
      | (None, evs) \<Rightarrow>
          (case run_batches subagentFn groupId rest of (t, evs') \<Rightarrow> (t, evs @ evs')))"

text \<open>\<open>maxParallelChildren > 0 ? maxParallelChildren : queries.length\<close>.\<close>

definition maxParallel_of :: "ParallelConfig \<Rightarrow> nat \<Rightarrow> nat" where
  "maxParallel_of cfg n = (if maxParallelChildren cfg > 0 then nat (maxParallelChildren cfg) else n)"

text \<open>
  The branch of \<open>flushBatch\<close> for a single query: the call is awaited inside a \<open>try\<close>
  block, so a call that throws and a promise that is rejected both reach the \<open>catch\<close>
  block.
\<close>

fun awaited_in_try :: "'v called \<Rightarrow> 'v settled" where
  "awaited_in_try (Throws e) = Rejected e"
| "awaited_in_try (Promise p) = p"

text \<open>
  \<open>flushBatch\<close>. \<open>startTime\<close> and \<open>endTime\<close> are the two readings of \<open>Date.now()\<close>,
  at the start and before the completion callback. The result is the executor
  afterwards, with the exception that left \<open>flushBatch\<close>, if any (its promise is then
  rejected).
\<close>

definition flushBatch ::
  "(string \<Rightarrow> string option \<Rightarrow> 'v called) \<Rightarrow> (nat \<Rightarrow> string) \<Rightarrow> int \<Rightarrow> int
     \<Rightarrow> 'v ParallelExecutor \<Rightarrow> (reason option \<times> 'v ParallelExecutor) option" where
  "flushBatch subagentFn genId startTime endTime ex0 =
     (let ex1 = ex0\<lparr>batchTimeout := None\<rparr>;
          queries = pendingQueries ex1;
          ex2 = ex1\<lparr>pendingQueries := []\<rparr>
      in if length queries = 0 then Some (None, ex2)
         else if length queries = 1 then
           (case hd queries of (key, query) \<Rightarrow>
              let ex3 = count_sequential ex2
              in (case invoke subagentFn (query_context query) None of (outcome, evs) \<Rightarrow>
                   (case awaited_in_try outcome of
                      Fulfilled result \<Rightarrow>
                        Some (None, emit (evs @ [Resolve (query_id query) result]) ex3)
                    | Rejected error \<Rightarrow>
                        (case toError error of
                           Inr err \<Rightarrow> Some (None, emit (evs @ [Reject (query_id query) err]) ex3)
                         | Inl t \<Rightarrow> Some (Some t, emit evs ex3)))))
         else
           (case generateParallelGroupId genId ex2 of (groupId, ex3) \<Rightarrow>
              let ex4 = count_parallel (length queries) ex3;
                  maxParallel = maxParallel_of (config ex4) (length queries)
              in (case call_onParallelStart (onParallelStart ex4) groupId
                         (int (min (length queries) maxParallel)) of
                    (Some e, evs) \<Rightarrow> Some (Some e, emit evs ex4)
                  | (None, evs) \<Rightarrow>
                      (case batches_loop maxParallel queries 0 [] of
                         None \<Rightarrow> None
                       | Some batches \<Rightarrow>
                           (case run_batches subagentFn groupId batches of
                              (Some e, evs') \<Rightarrow> Some (Some e, emit (evs @ evs') ex4)
                            | (None, evs') \<Rightarrow>
                                (case call_onParallelComplete (onParallelComplete ex4) groupId
                                        \<lparr>results = [], parallelGroupId = groupId,
                                         executionTimeMs = endTime - startTime,
                                         queryCount = int (length queries)\<rparr> of
                                   (t, evs'') \<Rightarrow> Some (t, emit (evs @ evs' @ evs'') ex4)))))))"

text \<open>The events that a flush added to the trace.\<close>

definition new_events :: "'v ParallelExecutor \<Rightarrow> 'v ParallelExecutor \<Rightarrow> 'v event list" where
  "new_events ex ex' = drop (length (trace ex)) (trace ex')"

section \<open>The orchestration engine (subagents.ts, call_llm.ts)\<close>

text \<open>
  In \<open>subagents.ts\<close> the spawn primitive calls the engine directly; the scheduler above
  is not on that path.
\<close>

text \<open>
  \<open>MAX_MONEY_SPENT\<close> is a number or \<open>Infinity\<close> (the default). The model names and the
  retry options are passed on to the provider and play no part in the control flow.
\<close>

datatype money_limit = Infinity | Dollars rat

record RlmConfig =
  MAX_CALLS :: int
  MAX_DEPTH :: int
  TRUNCATE_LEN :: int
  PRIMARY_AGENT :: string
  SUB_AGENT :: string
  MAX_MONEY_SPENT :: money_limit
  MAX_COMPLETION_TOKENS :: int
  MAX_PROMPT_TOKENS :: int

text \<open>Values of the executed code that reach the engine: the final result of a run.\<close>

datatype pyval = PyNone | PyStr string | PyInt int

text \<open>
  The errors that the engine throws: the one of \<open>llm_query\<close> at the depth limit, the three
  budget errors, the one at the end of the step loop, a failure of the provider call, and a
  failure of the priming code, which is run outside the \<open>try\<close> block.
\<close>

datatype error =
    MaxDepthReached
  | BudgetExceeded
  | CompletionTokenBudgetExceeded
  | PromptTokenBudgetExceeded
  | DidNotFinish
  | ApiError string
  | SandboxError thrown

record Message =
  role :: string
  content :: string
  reasoning :: "string option"

record CodeReturn =
  code :: string
  success :: bool
  message :: Message
  usage :: Usage

text \<open>The part of a provider response that \<open>generate_code\<close> reads.\<close>

record Completion =
  choice_message :: Message
  completion_usage :: Usage

text \<open>
  What a piece of code does when it is run: it prints, sets the final result (\<open>FINAL\<close>
  and \<open>FINAL_VAR\<close> do the same), calls \<open>llm_query\<close> and goes on with the value returned
  or the error thrown, ends, or ends with an exception that it did not catch. The calls
  of \<open>llm_query\<close> of one piece of code are made one after the other.
\<close>

datatype prog =
    Done
  | Raise thrown
  | Print string prog
  | FINAL pyval prog
  | LlmQuery string "error + pyval \<Rightarrow> prog"

text \<open>
  The collaborators and the constants of \<open>prompt.ts\<close> are parameters:
  the two system prompts, the priming code, the provider call (model name and messages
  to a response or the message of a failure), the extraction of the \<open>repl\<close> blocks from
  the content of a response, and the behaviour of a code string in the interpreter of a
  run, given the run's context and the transcript so far.
\<close>

record Env =
  SYSTEM_PROMPT :: string
  LEAF_AGENT_SYSTEM_PROMPT :: string
  initial_code :: string
  create_completion :: "string \<Rightarrow> Message list \<Rightarrow> string + Completion"
  extract_repl :: "string \<Rightarrow> string"
  sandbox :: "string \<Rightarrow> Message list \<Rightarrow> string \<Rightarrow> prog"

text \<open>
  A logged step. Run identifiers and time stamps, which come from the clock and a random
  number, are left out; so are the terminal output and the calls \<open>logAgentStart\<close> and
  \<open>logAgentEnd\<close>, which \<open>logging.ts\<close> does not define.
\<close>

record StepData =
  sd_depth :: int
  sd_step :: int
  sd_maxSteps :: int
  sd_code :: string
  sd_output :: "string option"
  sd_hasError :: "bool option"
  sd_reasoning :: "string option"
  sd_usage :: Usage
  sd_totalUsage :: Usage

datatype LogEvent = Step StepData | FinalResult int pyval

text \<open>
  The state shared by all runs: the usage accumulator and the log, and a record of every
  request sent to the provider, with the depth of the run that sent it.
\<close>

record World =
  globalUsage :: Usage
  events :: "LogEvent list"
  requests :: "(int \<times> string \<times> Message list) list"

text \<open>The variables of one run: the captured output, the final result, the transcript.\<close>

record Run =
  stdoutBuffer :: string
  final_result_set :: bool
  final_result :: pyval
  messages :: "Message list"

text \<open>How one pass of the step loop ends: \<open>continue\<close>, \<open>return result\<close>, or a throw.\<close>

datatype outcome = Continue | Return pyval | Throw error

definition system_message :: "Env \<Rightarrow> bool \<Rightarrow> Message" where
  "system_message env is_leaf_agent =
     \<lparr>role = ''system'',
      content = (if is_leaf_agent then LEAF_AGENT_SYSTEM_PROMPT env else SYSTEM_PROMPT env),
      reasoning = None\<rparr>"

text \<open>
  The call of the provider, \<open>client.chat.completions.create\<close>. The request is recorded
  as it is sent: the model name and the messages handed to the provider, with the depth
  of the run on whose behalf they are sent. That depth is a label of the record only: it
  is no argument of the source, and the answer does not depend on it.
\<close>

definition chat_completions_create ::
  "Env \<Rightarrow> int \<Rightarrow> string \<Rightarrow> Message list \<Rightarrow> World \<Rightarrow> (string + Completion) \<times> World" where
  "chat_completions_create env sender model_name request w =
     (create_completion env model_name request,
      w\<lparr>requests := requests w @ [(sender, model_name, request)]\<rparr>)"

text \<open>
  \<open>generate_code\<close>: the system message chosen by \<open>is_leaf_agent\<close> is put before the
  messages, the provider is called, and the \<open>repl\<close> blocks are extracted from the
  answer. A failure of the call is thrown on. The label \<open>sender\<close> is passed on to the
  record of the request.
\<close>

definition generate_code ::
  "Env \<Rightarrow> int \<Rightarrow> Message list \<Rightarrow> string \<Rightarrow> bool \<Rightarrow> World \<Rightarrow> (error + CodeReturn) \<times> World" where
  "generate_code env sender msgs model_name is_leaf_agent w =
     (case chat_completions_create env sender model_name
             (system_message env is_leaf_agent # msgs) w of
        (Inl msg, w') \<Rightarrow> (Inl (ApiError msg), w')
      | (Inr completion, w') \<Rightarrow>
          (let extracted = extract_repl env (content (choice_message completion));
               reported = completion_usage completion
           in if extracted = []
              then (Inr \<lparr>code = [], success = False, message = choice_message completion,
                        usage = reported\<rparr>, w')
              else (Inr \<lparr>code = extracted, success = True, message = choice_message completion,
                        usage = reported\<rparr>, w')))"

definition logStep :: "int \<Rightarrow> int \<Rightarrow> int \<Rightarrow> string \<Rightarrow> string option \<Rightarrow> bool option
    \<Rightarrow> string option \<Rightarrow> Usage \<Rightarrow> World \<Rightarrow> World" where
  "logStep depth maxSteps step_no code_text out has_error reason step_usage w =
     w\<lparr>events := events w @
        [Step \<lparr>sd_depth = depth, sd_step = step_no, sd_maxSteps = maxSteps, sd_code = code_text,
               sd_output = out, sd_hasError = has_error, sd_reasoning = reason,
               sd_usage = step_usage, sd_totalUsage = getTotalUsage (globalUsage w)\<rparr>]\<rparr>"

definition logFinalResult :: "int \<Rightarrow> pyval \<Rightarrow> World \<Rightarrow> World" where
  "logFinalResult depth result w = w\<lparr>events := events w @ [FinalResult depth result]\<rparr>"

definition depth_marker :: string where
  "depth_marker = newline @ ''Error: MAXIMUM DEPTH REACHED. You must solve this task on your own without calling llm_query.'' @ newline"

text \<open>
  \<open>llm_query\<close>, the spawn primitive of a run at depth \<open>subagent_depth\<close>. The engine
  that it calls for the child is the parameter \<open>subagent\<close>.
\<close>

definition llm_query ::
  "RlmConfig \<Rightarrow> (string \<Rightarrow> int \<Rightarrow> World \<Rightarrow> (error + pyval) \<times> World) \<Rightarrow> int
     \<Rightarrow> string \<Rightarrow> Run \<Rightarrow> World \<Rightarrow> (error + pyval) \<times> Run \<times> World" where
  "llm_query cfg subagent subagent_depth ctx run w =
     (if subagent_depth \<ge> MAX_DEPTH cfg
      then (Inl MaxDepthReached, run\<lparr>stdoutBuffer := stdoutBuffer run @ depth_marker\<rparr>, w)
      else (case subagent ctx (subagent_depth + 1) w of (output, w') \<Rightarrow> (output, run, w')))"

text \<open>
  Running code in the interpreter of a run, with \<open>q\<close> the \<open>llm_query\<close> bound there.
  The result is the exception that left the code, if any.
\<close>

primrec runPythonAsync ::
  "(string \<Rightarrow> Run \<Rightarrow> World \<Rightarrow> (error + pyval) \<times> Run \<times> World) \<Rightarrow> prog \<Rightarrow> Run \<Rightarrow> World
     \<Rightarrow> thrown option \<times> Run \<times> World" where
  "runPythonAsync q Done run w = (None, run, w)"
| "runPythonAsync q (Raise e) run w = (Some e, run, w)"
| "runPythonAsync q (Print t p) run w =
     runPythonAsync q p (run\<lparr>stdoutBuffer := stdoutBuffer run @ t @ newline\<rparr>) w"
| "runPythonAsync q (FINAL x p) run w =
     runPythonAsync q p (run\<lparr>final_result := x, final_result_set := True\<rparr>) w"
| "runPythonAsync q (LlmQuery c k) run w =
     (case q c run w of (r, run', w') \<Rightarrow> runPythonAsync q (k r) run' w')"

text \<open>The three checks after a model call; \<open>NaN > x\<close> is false.\<close>

definition budget_check :: "RlmConfig \<Rightarrow> Usage \<Rightarrow> error option" where
  "budget_check cfg totalUsage =
     (if cost totalUsage \<noteq> Undefined
         \<and> (case (cost totalUsage, MAX_MONEY_SPENT cfg) of
               (Num c, Dollars m) \<Rightarrow> c > m
             | _ \<Rightarrow> False)
      then Some BudgetExceeded
      else if completion_tokens totalUsage > MAX_COMPLETION_TOKENS cfg
      then Some CompletionTokenBudgetExceeded
      else if prompt_tokens totalUsage > MAX_PROMPT_TOKENS cfg
      then Some PromptTokenBudgetExceeded
      else None)"

definition corrective_message :: Message where
  "corrective_message =
     \<lparr>role = ''user'',
      content = ''Error: We could not extract code because you may not have used repl block!'',
      reasoning = None\<rparr>"

text \<open>The branch \<open>if (!success)\<close>.\<close>

definition no_code_step :: "RlmConfig \<Rightarrow> int \<Rightarrow> int \<Rightarrow> CodeReturn \<Rightarrow> Run \<Rightarrow> World
    \<Rightarrow> outcome \<times> Run \<times> World" where
  "no_code_step cfg depth i r run w =
     (Continue,
      run\<lparr>messages := messages run @ [corrective_message]\<rparr>,
      logStep depth (MAX_CALLS cfg) (i + 1) (code r) None None (reasoning (message r)) (usage r) w)"

text \<open>The \<open>catch\<close> block around the execution.\<close>

definition fold_error :: "thrown option \<Rightarrow> Run \<Rightarrow> Run" where
  "fold_error thrown run =
     (case thrown of
        None \<Rightarrow> run
      | Some (ErrorObject msg) \<Rightarrow>
          run\<lparr>stdoutBuffer := stdoutBuffer run @ newline @ ''Error: '' @ msg @ '' ''\<rparr>
      | Some (NonError s) \<Rightarrow>
          run\<lparr>stdoutBuffer := stdoutBuffer run @ newline @ ''Error: '' @ s @ '' ''\<rparr>)"

text \<open>The buffer is reset, the code is run, and a failure is folded into the buffer.\<close>

definition execute_step ::
  "Env \<Rightarrow> (string \<Rightarrow> Run \<Rightarrow> World \<Rightarrow> (error + pyval) \<times> Run \<times> World) \<Rightarrow> string
     \<Rightarrow> CodeReturn \<Rightarrow> Run \<Rightarrow> World \<Rightarrow> Run \<times> World" where
  "execute_step env q ctx r run w =
     (case runPythonAsync q (sandbox env ctx (messages run) (code r)) (run\<lparr>stdoutBuffer := []\<rparr>) w of
        (thrown, run', w') \<Rightarrow> (fold_error thrown run', w'))"

text \<open>From the truncation of the output to the end of the loop body.\<close>

definition after_execution :: "RlmConfig \<Rightarrow> int \<Rightarrow> int \<Rightarrow> CodeReturn \<Rightarrow> Run \<Rightarrow> World
    \<Rightarrow> outcome \<times> Run \<times> World" where
  "after_execution cfg depth i r run w =
     (let truncatedText = truncateText (TRUNCATE_LEN cfg) (stdoutBuffer run)
      in if final_result_set run
         then (Return (final_result run), run,
               logFinalResult depth (final_result run)
                 (logStep depth (MAX_CALLS cfg) (i + 1) (code r) None None
                    (reasoning (message r)) (usage r) w))
         else (let hasError = includes_str (stdoutBuffer run) ''Error''
               in (Continue,
                   run\<lparr>messages := messages run @
                        [\<lparr>role = ''user'', content = ''Output: '' @ newline @ truncatedText,
                          reasoning = None\<rparr>]\<rparr>,
                   logStep depth (MAX_CALLS cfg) (i + 1) (code r) (Some truncatedText)
                     (Some hasError) (reasoning (message r)) (usage r) w)))"

text \<open>One pass of the loop body.\<close>

definition iteration ::
  "RlmConfig \<Rightarrow> Env \<Rightarrow> (string \<Rightarrow> Run \<Rightarrow> World \<Rightarrow> (error + pyval) \<times> Run \<times> World)
     \<Rightarrow> string \<Rightarrow> int \<Rightarrow> int \<Rightarrow> Run \<Rightarrow> World \<Rightarrow> outcome \<times> Run \<times> World" where
  "iteration cfg env q ctx subagent_depth i run w =
     (let model_name = (if subagent_depth = 0 then PRIMARY_AGENT cfg else SUB_AGENT cfg);
          is_leaf_agent = (subagent_depth = MAX_DEPTH cfg)
      in case generate_code env subagent_depth (messages run) model_name is_leaf_agent w of
           (Inl e, w1) \<Rightarrow> (Throw e, run, w1)
         | (Inr r, w1) \<Rightarrow>
             (let run1 = run\<lparr>messages := messages run @ [message r]\<rparr>;
                  w2 = w1\<lparr>globalUsage := trackUsage (usage r) (globalUsage w1)\<rparr>
              in case budget_check cfg (getTotalUsage (globalUsage w2)) of
                   Some e \<Rightarrow> (Throw e, run1, w2)
                 | None \<Rightarrow>
                     if \<not> success r then no_code_step cfg subagent_depth i r run1 w2
                     else (case execute_step env q ctx r run1 w2 of
                             (run2, w3) \<Rightarrow> after_execution cfg subagent_depth i r run2 w3)))"

text \<open>\<open>for (let i = 0; i < MAX_CALLS; i++)\<close> and the throw after it.\<close>

function subagent_loop ::
  "RlmConfig \<Rightarrow> Env \<Rightarrow> (string \<Rightarrow> Run \<Rightarrow> World \<Rightarrow> (error + pyval) \<times> Run \<times> World)
     \<Rightarrow> string \<Rightarrow> int \<Rightarrow> int \<Rightarrow> Run \<Rightarrow> World \<Rightarrow> (error + pyval) \<times> World" where
  "subagent_loop cfg env q ctx subagent_depth i run w =
     (if i < MAX_CALLS cfg
      then (case iteration cfg env q ctx subagent_depth i run w of
              (Continue, run', w') \<Rightarrow> subagent_loop cfg env q ctx subagent_depth (i + 1) run' w'
            | (Return result, run', w') \<Rightarrow> (Inr result, w')
            | (Throw e, run', w') \<Rightarrow> (Inl e, w'))
      else (Inl DidNotFinish, w))"
  by pat_completeness auto
termination
  by (relation "measure (\<lambda>(cfg, env, q, ctx, d, i, run, w). nat (MAX_CALLS cfg - i))") auto

declare subagent_loop.simps [simp del]

definition noUsage :: Usage where
  "noUsage = \<lparr>prompt_tokens = 0, completion_tokens = 0, total_tokens = 0,
               cached_tokens = 0, reasoning_tokens = 0, cost = Undefined\<rparr>"

definition first_message :: "RlmConfig \<Rightarrow> Env \<Rightarrow> string \<Rightarrow> Message" where
  "first_message cfg env buffer =
     \<lparr>role = ''user'',
      content = newline @ ''Outputs will always be truncated to last '' @ show_int (TRUNCATE_LEN cfg)
        @ '' characters.'' @ newline @ ''code:'' @ newline @ ''```repl'' @ newline
        @ initial_code env @ newline @ ''```'' @ newline @ newline @ ''Output:'' @ newline
        @ trim buffer @ newline @ ''    '',
      reasoning = None\<rparr>"

text \<open>The body of \<open>subagent\<close>, with the engine called for a child as a parameter.\<close>

definition subagent_run ::
  "RlmConfig \<Rightarrow> Env \<Rightarrow> (string \<Rightarrow> int \<Rightarrow> World \<Rightarrow> (error + pyval) \<times> World)
     \<Rightarrow> string \<Rightarrow> int \<Rightarrow> World \<Rightarrow> (error + pyval) \<times> World" where
  "subagent_run cfg env subagent ctx subagent_depth w =
     (let q = llm_query cfg subagent subagent_depth;
          run0 = \<lparr>stdoutBuffer = [], final_result_set = False, final_result = PyNone, messages = []\<rparr>
      in case runPythonAsync q (sandbox env ctx [] (initial_code env)) run0 w of
           (Some e, run1, w1) \<Rightarrow> (Inl (SandboxError e), w1)
         | (None, run1, w1) \<Rightarrow>
             (let run2 = run1\<lparr>messages := [first_message cfg env (stdoutBuffer run1)]\<rparr>;
                  w2 = logStep subagent_depth (MAX_CALLS cfg) 0 (initial_code env)
                         (Some (trim (stdoutBuffer run1))) (Some False) None noUsage w1
              in subagent_loop cfg env q ctx subagent_depth 0 run2 w2))"

text \<open>
  \<open>subagent\<close> calls itself through \<open>llm_query\<close> only below the depth limit, so the
  recursion is tied over the number of levels that remain; lemma \<open>subagent_unfold\<close>
  below is the recursion equation of the source.
\<close>

primrec subagent_tree ::
  "nat \<Rightarrow> RlmConfig \<Rightarrow> Env \<Rightarrow> string \<Rightarrow> int \<Rightarrow> World \<Rightarrow> (error + pyval) \<times> World" where
  "subagent_tree 0 cfg env = subagent_run cfg env (\<lambda>ctx d w. (Inl MaxDepthReached, w))"
| "subagent_tree (Suc n) cfg env = subagent_run cfg env (subagent_tree n cfg env)"

definition subagent :: "RlmConfig \<Rightarrow> Env \<Rightarrow> string \<Rightarrow> int \<Rightarrow> World \<Rightarrow> (error + pyval) \<times> World" where
  "subagent cfg env ctx subagent_depth =
     subagent_tree (nat (MAX_DEPTH cfg - subagent_depth)) cfg env ctx subagent_depth"

text \<open>
  The main block: the accumulator is reset, and the exit status is 1 when the engine
  threw an error whose message is not the empty string (\<open>fatalError ? 1 : 0\<close>). The
  messages of the engine's own errors are not empty.
\<close>

definition initial_world :: World where
  "initial_world = \<lparr>globalUsage = resetUsage zeroUsage, events = [], requests = []\<rparr>"

definition has_message :: "error \<Rightarrow> bool" where
  "has_message err =
     (case err of
        ApiError msg \<Rightarrow> msg \<noteq> []
      | SandboxError (ErrorObject msg) \<Rightarrow> msg \<noteq> []
      | SandboxError (NonError s) \<Rightarrow> s \<noteq> []
      | _ \<Rightarrow> True)"

definition main :: "RlmConfig \<Rightarrow> Env \<Rightarrow> string \<Rightarrow> int \<times> World" where
  "main cfg env stdin_text =
     (case subagent cfg env stdin_text 0 initial_world of
        (Inr out, w) \<Rightarrow> (0, w)
      | (Inl err, w) \<Rightarrow> (if has_message err then 1 else 0, w))"

text \<open>A request starts with the system message that belongs to the depth of its run.\<close>

definition prompt_ok :: "RlmConfig \<Rightarrow> Env \<Rightarrow> int \<times> string \<times> Message list \<Rightarrow> bool" where
  "prompt_ok cfg env req =
     (case req of (d, model, msgs) \<Rightarrow>
        (case msgs of [] \<Rightarrow> False
         | m # rest \<Rightarrow> m = system_message env (d = MAX_DEPTH cfg)))"

definition prompts_ok :: "RlmConfig \<Rightarrow> Env \<Rightarrow> World \<Rightarrow> bool" where
  "prompts_ok cfg env w = list_all (prompt_ok cfg env) (requests w)"

definition query_keeps_prompts_ok ::
  "RlmConfig \<Rightarrow> Env \<Rightarrow> (string \<Rightarrow> Run \<Rightarrow> World \<Rightarrow> (error + pyval) \<times> Run \<times> World) \<Rightarrow> bool" where
  "query_keeps_prompts_ok cfg env q =
     (\<forall>c run w. prompts_ok cfg env w \<longrightarrow> prompts_ok cfg env (snd (snd (q c run w))))"

definition child_keeps_prompts_ok ::
  "RlmConfig \<Rightarrow> Env \<Rightarrow> (string \<Rightarrow> int \<Rightarrow> World \<Rightarrow> (error + pyval) \<times> World) \<Rightarrow> bool" where
  "child_keeps_prompts_ok cfg env child =
     (\<forall>c d w. prompts_ok cfg env w \<longrightarrow> prompts_ok cfg env (snd (child c d w)))"

section \<open>Concrete inputs\<close>

text \<open>
  A scheduler with both callbacks, which return, a limit \<open>k\<close> and some pending
  queries.
\<close>

definition sched_example :: "int \<Rightarrow> (string \<times> PendingQuery) list \<Rightarrow> string ParallelExecutor" where
  "sched_example k qs =
     \<lparr>pendingQueries = qs, batchTimeout = Some 1,
      config = \<lparr>maxParallelChildren = k, batchWindowMs = 50, maxBudget = 1, currentDepth = 0, maxDepth = 3\<rparr>,
      onParallelStart = Some (\<lambda>groupId n. None),
      onParallelComplete = Some (\<lambda>groupId res. None),
      stats = \<lparr>totalQueries = int (length qs), parallelBatches = 0, sequentialQueries = 0, totalParallelQueries = 0\<rparr>,
      groupIdsGenerated = 0, trace = []\<rparr>"

definition example_query :: "string \<Rightarrow> string \<Rightarrow> string \<times> PendingQuery" where
  "example_query key c = (key, \<lparr>query_id = key, query_context = c, queuedAt = 0\<rparr>)"

definition example_genId :: "nat \<Rightarrow> string" where
  "example_genId n = ''pg-'' @ show_nat n"

text \<open>
  Three functions for \<open>subagentFn\<close>. On the context \<open>bad\<close> the first returns a promise
  that is rejected with a string, the second throws before it returns a promise, and the
  third returns a promise that is rejected with a value that has no string conversion. On
  every other context they return a promise that is fulfilled with a text that tells the
  context and the group id that the function was called with.
\<close>

definition answer :: "string \<Rightarrow> string option \<Rightarrow> string" where
  "answer c gid = (case gid of None \<Rightarrow> ''done '' @ c | Some g \<Rightarrow> ''done '' @ c @ '' in '' @ g)"

definition example_subagentFn :: "string \<Rightarrow> string option \<Rightarrow> string called" where
  "example_subagentFn c gid =
     (if c = ''bad'' then Promise (Rejected (Value (NonError ''boom'')))
      else Promise (Fulfilled (answer c gid)))"

definition throwing_subagentFn :: "string \<Rightarrow> string option \<Rightarrow> string called" where
  "throwing_subagentFn c gid =
     (if c = ''bad'' then Throws (Value (ErrorObject ''boom''))
      else Promise (Fulfilled (answer c gid)))"

definition unprintable_subagentFn :: "string \<Rightarrow> string option \<Rightarrow> string called" where
  "unprintable_subagentFn c gid =
     (if c = ''bad''
      then Promise (Rejected (Unprintable (Value (ErrorObject ''Cannot convert object to primitive value''))))
      else Promise (Fulfilled (answer c gid)))"



definition example_one :: "string ParallelExecutor" where
  "example_one = sched_example 2 [example_query ''q1'' ''a'']"

definition example_three :: "string ParallelExecutor" where
  "example_three = sched_example 2 [example_query ''q1'' ''a'', example_query ''q2'' ''bad'',
                              example_query ''q3'' ''c'']"

text \<open>
  An engine configuration with depth limit 1 and a completion-token ceiling of 10, and a
  provider that answers the root model and the sub-agent model with a fixed code and a
  fixed number of completion tokens each.
\<close>

definition example_cfg :: RlmConfig where
  "example_cfg = \<lparr>MAX_CALLS = 3, MAX_DEPTH = 1, TRUNCATE_LEN = 100,
     PRIMARY_AGENT = ''root-model'', SUB_AGENT = ''sub-model'', MAX_MONEY_SPENT = Infinity,
     MAX_COMPLETION_TOKENS = 10, MAX_PROMPT_TOKENS = 1000\<rparr>"

definition example_usage :: "int \<Rightarrow> Usage" where
  "example_usage n = \<lparr>prompt_tokens = 1, completion_tokens = n, total_tokens = n + 1,
     cached_tokens = 0, reasoning_tokens = 0, cost = Num 0\<rparr>"

definition example_sandbox :: "string \<Rightarrow> Message list \<Rightarrow> string \<Rightarrow> prog" where
  "example_sandbox ctx history code_text =
     (if code_text = ''print(context)'' then Print ctx Done
      else if code_text = ''spawn'' then
        FINAL (PyStr ''partial'')
          (LlmQuery ''part'' (\<lambda>r. case r of Inl e \<Rightarrow> Raise (ErrorObject ''llm_query failed'')
                                     | Inr v \<Rightarrow> Done))
      else if code_text = ''report'' then Print ''Error rate: 0'' Done
      else if code_text = ''crash'' then Raise (ErrorObject ''boom'')
      else Done)"

definition example_env :: "string \<Rightarrow> int \<Rightarrow> string \<Rightarrow> int \<Rightarrow> Env" where
  "example_env root_code root_tokens sub_code sub_tokens =
     \<lparr>SYSTEM_PROMPT = ''standard prompt'', LEAF_AGENT_SYSTEM_PROMPT = ''leaf prompt'',
      initial_code = ''print(context)'',
      create_completion = (\<lambda>model msgs.
         Inr \<lparr>choice_message = \<lparr>role = ''assistant'',
                  content = (if model = ''root-model'' then root_code else sub_code),
                  reasoning = None\<rparr>,
              completion_usage = example_usage (if model = ''root-model'' then root_tokens else sub_tokens)\<rparr>),
      extract_repl = (\<lambda>c. c),
      sandbox = example_sandbox\<rparr>"

definition env_spawn :: Env where
  "env_spawn = example_env ''spawn'' 5 ''work'' 20"

definition env_silent :: Env where
  "env_silent = example_env [] 3 ''work'' 20"

definition env_silent_over :: Env where
  "env_silent_over = example_env [] 20 ''work'' 20"

definition env_report :: Env where
  "env_report = example_env ''report'' 3 ''work'' 20"

definition env_crash :: Env where
  "env_crash = example_env ''crash'' 3 ''work'' 20"

text \<open>
  A provider that answers one request only, the one of the sub-agent model that consists
  of the leaf-agent system message; it fails on every other request.
\<close>

definition leaf_only_provider :: "string \<Rightarrow> Message list \<Rightarrow> string + Completion" where
  "leaf_only_provider model msgs =
     (if model = ''sub-model''
         \<and> msgs = [\<lparr>role = ''system'', content = ''leaf prompt'', reasoning = None\<rparr>]
      then create_completion env_spawn model msgs
      else Inl ''no answer'')"

definition assistant_message :: "string \<Rightarrow> Message" where
  "assistant_message c = \<lparr>role = ''assistant'', content = c, reasoning = None\<rparr>"

definition example_run :: Run where
  "example_run = \<lparr>stdoutBuffer = [], final_result_set = False, final_result = PyNone, messages = []\<rparr>"

section \<open>Properties of the truncation\<close>

lemma show_nat_digit: "n < 10 \<Longrightarrow> show_nat n = [digit_char n]"
  by simp

lemma slice_from_last:
  assumes "0 < T" and "T < int (length text)"
  shows "slice_from (- T) text = drop (length text - nat T) text"
proof -
  have "nat (int (length text) - T) = length text - nat T"
    using assms by linarith
  then show ?thesis
    using assms by (simp add: slice_from_def Let_def max_def)
qed

text \<open>
  For a positive limit the three cases of the truncation policy hold: the marker and
  exactly the last \<open>T\<close> characters, the empty marker, or the full marker and the text.
\<close>

lemma truncateText_positive_limit:
  assumes "0 < T"
  shows "truncateText T text =
     (if int (length text) > T
      then ''[TRUNCATED: Last '' @ show_int T @ '' chars shown].. ''
             @ drop (length text - nat T) text
      else if text = [] then ''[EMPTY OUTPUT]''
      else ''[FULL OUTPUT SHOWN]... '' @ text)"
  using assms by (simp add: truncateText_def slice_from_last)

lemma truncateText_kept_length:
  assumes "0 < T" and "T < int (length text)"
  shows "length (drop (length text - nat T) text) = nat T"
  using assms by simp

text \<open>
  C1. The truncation of a text longer than the limit \<open>T\<close> is the truncation marker
  followed by exactly the last \<open>T\<close> characters. With the limit 0 and a non-empty text
  the code takes that branch, but \<open>slice(-0)\<close> is \<open>slice(0)\<close>: the marker that announces
  the last 0 characters is followed by the whole text.
\<close>

theorem truncateText_zero_limit_keeps_all:
  "truncateText 0 ''ab'' = ''[TRUNCATED: Last 0 chars shown].. ab''"
  by (simp add: truncateText_def slice_from_def show_int_def digit_char_def)

section \<open>Properties of the accumulator\<close>

lemma trackAll_snoc: "trackAll (deltas @ [u]) g = trackUsage u (trackAll deltas g)"
  by (simp add: trackAll_def)

lemma trackAll_prompt_tokens:
  "prompt_tokens (getTotalUsage (trackAll deltas g)) = prompt_tokens g + (\<Sum>u\<leftarrow>deltas. prompt_tokens u)"
  by (induction deltas rule: rev_induct) (simp_all add: trackAll_snoc trackUsage_def getTotalUsage_def trackAll_def)

lemma trackAll_completion_tokens:
  "completion_tokens (getTotalUsage (trackAll deltas g)) = completion_tokens g + (\<Sum>u\<leftarrow>deltas. completion_tokens u)"
  by (induction deltas rule: rev_induct) (simp_all add: trackAll_snoc trackUsage_def getTotalUsage_def trackAll_def)

lemma trackAll_total_tokens:
  "total_tokens (getTotalUsage (trackAll deltas g)) = total_tokens g + (\<Sum>u\<leftarrow>deltas. total_tokens u)"
  by (induction deltas rule: rev_induct) (simp_all add: trackAll_snoc trackUsage_def getTotalUsage_def trackAll_def)

lemma trackAll_cached_tokens:
  "cached_tokens (getTotalUsage (trackAll deltas g)) = cached_tokens g + (\<Sum>u\<leftarrow>deltas. cached_tokens u)"
  by (induction deltas rule: rev_induct) (simp_all add: trackAll_snoc trackUsage_def getTotalUsage_def trackAll_def)

lemma trackAll_reasoning_tokens:
  "reasoning_tokens (getTotalUsage (trackAll deltas g)) = reasoning_tokens g + (\<Sum>u\<leftarrow>deltas. reasoning_tokens u)"
  by (induction deltas rule: rev_induct) (simp_all add: trackAll_snoc trackUsage_def getTotalUsage_def trackAll_def)

lemma trackAll_cost_reported:
  assumes "list_all (\<lambda>u. is_Num (cost u)) deltas" and "is_Num (cost g)"
  shows "cost (getTotalUsage (trackAll deltas g)) =
           Num (cost_value (cost g) + (\<Sum>u\<leftarrow>deltas. cost_value (cost u)))"
  using assms
proof (induction deltas rule: rev_induct)
  case Nil
  then show ?case by (cases "cost g") (simp_all add: trackAll_def getTotalUsage_def)
next
  case (snoc u deltas)
  then show ?case
    by (cases "cost u") (simp_all add: trackAll_snoc trackUsage_def getTotalUsage_def)
qed

lemma trackUsage_tokens_mono:
  assumes "0 \<le> prompt_tokens u" "0 \<le> completion_tokens u" "0 \<le> total_tokens u"
    "0 \<le> cached_tokens u" "0 \<le> reasoning_tokens u"
  shows "prompt_tokens g \<le> prompt_tokens (trackUsage u g)
       \<and> completion_tokens g \<le> completion_tokens (trackUsage u g)
       \<and> total_tokens g \<le> total_tokens (trackUsage u g)
       \<and> cached_tokens g \<le> cached_tokens (trackUsage u g)
       \<and> reasoning_tokens g \<le> reasoning_tokens (trackUsage u g)"
  using assms by (simp add: trackUsage_def)

text \<open>
  C4. Every field of a snapshot is the sum of that field over the deltas recorded. The
  token fields are (lemmas above), and so is the cost while every delta reports one. One
  delta whose cost is \<open>undefined\<close> (a provider that reports no cost) turns the
  accumulated cost into \<open>NaN\<close>, and it stays \<open>NaN\<close> whatever is recorded afterwards:
  the snapshot's cost is then not the sum of the costs recorded.
\<close>

theorem trackUsage_undefined_cost_poisons_total:
  "cost (getTotalUsage (trackAll
      [\<lparr>prompt_tokens = 10, completion_tokens = 5, total_tokens = 15, cached_tokens = 0,
         reasoning_tokens = 0, cost = Num (1/4)\<rparr>,
       \<lparr>prompt_tokens = 10, completion_tokens = 5, total_tokens = 15, cached_tokens = 0,
         reasoning_tokens = 0, cost = Undefined\<rparr>,
       \<lparr>prompt_tokens = 10, completion_tokens = 5, total_tokens = 15, cached_tokens = 0,
         reasoning_tokens = 0, cost = Num (1/2)\<rparr>] zeroUsage)) = NaN"
  by (simp add: trackAll_def trackUsage_def getTotalUsage_def zeroUsage_def)

section \<open>Properties of the scheduler\<close>

lemma batches_loop_result:
  assumes "0 < m"
  shows "\<exists>bs. batches_loop m qs i acc = Some (acc @ bs) \<and> concat bs = drop i qs
            \<and> (\<forall>b\<in>set bs. b \<noteq> [] \<and> length b \<le> m)
            \<and> (length qs \<le> i + m \<and> i < length qs \<longrightarrow> bs = [drop i qs])"
proof (induction "length qs - i" arbitrary: i acc rule: less_induct)
  case less
  show ?case
  proof (cases "i < length qs")
    case False
    then show ?thesis by (subst batches_loop.simps) simp
  next
    case True
    have "length qs - (i + m) < length qs - i" using True assms by linarith
    from less[OF this, of "acc @ [slice i (i + m) qs]"]
    obtain bs where bs: "batches_loop m qs (i + m) (acc @ [slice i (i + m) qs]) = Some ((acc @ [slice i (i + m) qs]) @ bs)"
      "concat bs = drop (i + m) qs" "\<forall>b\<in>set bs. b \<noteq> [] \<and> length b \<le> m"
      by blast
    have step: "batches_loop m qs i acc = Some (acc @ (slice i (i + m) qs # bs))"
      using True bs(1) by (subst batches_loop.simps) simp
    have cc: "concat (slice i (i + m) qs # bs) = drop i qs"
    proof -
      have "take m (drop i qs) @ drop m (drop i qs) = drop i qs"
        by (rule append_take_drop_id)
      moreover have "drop m (drop i qs) = drop (i + m) qs"
        by (simp only: drop_drop add.commute)
      moreover have "slice i (i + m) qs = take m (drop i qs)"
        by (simp only: slice_def add_diff_cancel_left')
      ultimately show ?thesis using bs(2) by simp
    qed
    have ne: "slice i (i + m) qs \<noteq> []" "length (slice i (i + m) qs) \<le> m"
      using True assms by (auto simp: slice_def)
    have one: "length qs \<le> i + m \<longrightarrow> slice i (i + m) qs # bs = [drop i qs]"
    proof
      assume a: "length qs \<le> i + m"
      then have "drop (i + m) qs = []" by simp
      with bs(2,3) have "bs = []" by (cases bs) auto
      moreover have "slice i (i + m) qs = drop i qs" using a by (simp add: slice_def)
      ultimately show "slice i (i + m) qs # bs = [drop i qs]" by simp
    qed
    show ?thesis
      using step cc ne bs(3) one by (intro exI[of _ "slice i (i + m) qs # bs"]) auto
  qed
qed

lemma make_batches:
  assumes "0 < m"
  shows "\<exists>bs. batches_loop m qs 0 [] = Some bs \<and> concat bs = qs
            \<and> (\<forall>b\<in>set bs. b \<noteq> [] \<and> length b \<le> m)
            \<and> (length qs \<le> m \<and> 0 < length qs \<longrightarrow> bs = [qs])"
  using batches_loop_result[OF assms, of qs 0 "[]"] by simp

lemma emit_fields:
  "trace (emit es ex) = trace ex @ es"
  "pendingQueries (emit es ex) = pendingQueries ex"
  "batchTimeout (emit es ex) = batchTimeout ex"
  "config (emit es ex) = config ex"
  "onParallelStart (emit es ex) = onParallelStart ex"
  "onParallelComplete (emit es ex) = onParallelComplete ex"
  "stats (emit es ex) = stats ex"
  "groupIdsGenerated (emit es ex) = groupIdsGenerated ex"
  by (simp_all add: emit_def)

lemma count_parallel_fields:
  "trace (count_parallel n ex) = trace ex"
  "pendingQueries (count_parallel n ex) = pendingQueries ex"
  "batchTimeout (count_parallel n ex) = batchTimeout ex"
  "config (count_parallel n ex) = config ex"
  "onParallelStart (count_parallel n ex) = onParallelStart ex"
  "onParallelComplete (count_parallel n ex) = onParallelComplete ex"
  "stats (count_parallel n ex) = (stats ex)\<lparr>parallelBatches := parallelBatches (stats ex) + 1,
       totalParallelQueries := totalParallelQueries (stats ex) + int n\<rparr>"
  "groupIdsGenerated (count_parallel n ex) = groupIdsGenerated ex"
  by (simp_all add: count_parallel_def)

lemma count_sequential_fields:
  "trace (count_sequential ex) = trace ex"
  "pendingQueries (count_sequential ex) = pendingQueries ex"
  "batchTimeout (count_sequential ex) = batchTimeout ex"
  "config (count_sequential ex) = config ex"
  "onParallelStart (count_sequential ex) = onParallelStart ex"
  "onParallelComplete (count_sequential ex) = onParallelComplete ex"
  "stats (count_sequential ex) = (stats ex)\<lparr>sequentialQueries := sequentialQueries (stats ex) + 1\<rparr>"
  "groupIdsGenerated (count_sequential ex) = groupIdsGenerated ex"
  by (simp_all add: count_sequential_def)

lemma maxParallel_of_pos: "2 \<le> length (pendingQueries ex) \<Longrightarrow> 0 < maxParallel_of (config ex) (length (pendingQueries ex))"
  by (cases "pendingQueries ex") (simp_all add: maxParallel_of_def)

lemma cohort_length_facts: "2 \<le> length (qs::'a list) \<Longrightarrow> length qs \<noteq> 0 \<and> length qs \<noteq> 1 \<and> 0 < length qs"
  by linarith

lemma maxParallel_of_unlimited: "maxParallelChildren c \<le> 0 \<Longrightarrow> maxParallel_of c n = n"
  by (simp add: maxParallel_of_def)

lemma chunk_bound:
  assumes "\<forall>b\<in>set batches. b \<noteq> [] \<and> length b \<le> maxParallel_of c n"
  shows "0 < maxParallelChildren c \<longrightarrow> (\<forall>b\<in>set batches. int (length b) \<le> maxParallelChildren c)"
proof (intro impI ballI)
  fix b assume k: "0 < maxParallelChildren c" and b: "b \<in> set batches"
  from assms b have "length b \<le> maxParallel_of c n" by blast
  with k have "length b \<le> nat (maxParallelChildren c)" by (simp add: maxParallel_of_def)
  with k show "int (length b) \<le> maxParallelChildren c" by linarith
qed

text \<open>The calls of a batch: made in order, each with the group id, up to a call that throws.\<close>

lemma batch_map_calls:
  "prefix (snd (batch_map f gid b)) (map (\<lambda>(key, query). Exec (query_context query) (Some gid)) b)"
  by (induction b) (auto simp: invoke_def split: prod.splits called.splits sum.splits)

lemma batch_map_only_calls:
  "filter is_Exec (snd (batch_map f gid b)) = snd (batch_map f gid b)"
  by (induction b) (auto simp: invoke_def split: prod.splits called.splits sum.splits)

lemma batch_map_all:
  "fst (batch_map f gid b) = Inr ps \<Longrightarrow>
     snd (batch_map f gid b) = map (\<lambda>(key, query). Exec (query_context query) (Some gid)) b
   \<and> map (\<lambda>(key, query). f (query_context query) (Some gid)) b = map Promise ps"
  by (induction b arbitrary: ps) (auto simp: invoke_def split: prod.splits called.splits sum.splits)

lemma results_forEach_no_calls:
  "filter is_Exec (snd (results_forEach b ps)) = []"
  by (induction b ps rule: results_forEach.induct) (auto split: prod.splits sum.splits)

lemma results_forEach_only_settles:
  "filter (\<lambda>e. is_Resolve e \<or> is_Reject e) (snd (results_forEach b ps)) = snd (results_forEach b ps)"
  by (induction b ps rule: results_forEach.induct) (auto split: prod.splits sum.splits)

lemma batch_map_no_settles:
  "filter (\<lambda>e. is_Resolve e \<or> is_Reject e) (snd (batch_map f gid b)) = []"
  by (induction b) (auto simp: invoke_def split: prod.splits called.splits sum.splits)

lemma results_forEach_all:
  "fst (results_forEach b ps) = None \<Longrightarrow> length ps = length b \<Longrightarrow>
     map Some (snd (results_forEach b ps)) =
       map (\<lambda>((key, query), p).
              case p of
                Fulfilled v \<Rightarrow> Some (Resolve (query_id query) v)
              | Rejected r \<Rightarrow> (case toError r of Inr err \<Rightarrow> Some (Reject (query_id query) err)
                               | Inl t \<Rightarrow> None)) (zip b ps)"
  by (induction b ps rule: results_forEach.induct) (auto split: prod.splits sum.splits)

lemma settled_by_own_call:
  "map (\<lambda>(key, query). f (query_context query) (Some gid)) b = map Promise ps \<Longrightarrow>
     map (\<lambda>((key, query), p). G query p) (zip b ps) =
     map (\<lambda>(key, query). case f (query_context query) (Some gid) of
                            Throws e \<Rightarrow> None | Promise p \<Rightarrow> G query p) b"
  by (induction b arbitrary: ps) (auto split: prod.splits)

text \<open>
  A batch that runs to its end: every member is called with the group id, and then every
  member is settled, once, by the result of its own call.
\<close>

lemma run_batch_complete:
  assumes "fst (run_batch f gid b) = None"
  shows "filter is_Exec (snd (run_batch f gid b)) =
           map (\<lambda>(key, query). Exec (query_context query) (Some gid)) b"
    and "map Some (filter (\<lambda>e. is_Resolve e \<or> is_Reject e) (snd (run_batch f gid b))) =
           map (\<lambda>(key, query).
                  case f (query_context query) (Some gid) of
                    Promise (Fulfilled v) \<Rightarrow> Some (Resolve (query_id query) v)
                  | Promise (Rejected r) \<Rightarrow>
                      (case toError r of Inr err \<Rightarrow> Some (Reject (query_id query) err)
                       | Inl t \<Rightarrow> None)
                  | Throws e \<Rightarrow> None) b"
    and "snd (run_batch f gid b) =
           filter is_Exec (snd (run_batch f gid b))
           @ filter (\<lambda>e. is_Resolve e \<or> is_Reject e) (snd (run_batch f gid b))"
proof -
  obtain res evs where bm: "batch_map f gid b = (res, evs)" by (cases "batch_map f gid b") auto
  from assms bm obtain ps where res: "res = Inr ps"
    by (cases res) (auto simp: run_batch_def)
  obtain t evs' where fe: "results_forEach b ps = (t, evs')" by (cases "results_forEach b ps") auto
  have t: "t = None" using assms bm res fe by (simp add: run_batch_def)
  have rb: "snd (run_batch f gid b) = evs @ evs'" using bm res fe by (simp add: run_batch_def)
  from batch_map_all[of f gid b ps] bm res
  have evs: "evs = map (\<lambda>(key, query). Exec (query_context query) (Some gid)) b"
    and calls: "map (\<lambda>(key, query). f (query_context query) (Some gid)) b = map Promise ps"
    by simp_all
  have len: "length ps = length b"
    using arg_cong[OF calls, of length] by simp
  have fevs: "filter is_Exec evs = evs" "filter (\<lambda>e. is_Resolve e \<or> is_Reject e) evs = []"
    using batch_map_only_calls[of f gid b] batch_map_no_settles[of f gid b] bm by simp_all
  have fevs': "filter is_Exec evs' = []" "filter (\<lambda>e. is_Resolve e \<or> is_Reject e) evs' = evs'"
    using results_forEach_no_calls[of b ps] results_forEach_only_settles[of b ps] fe by simp_all
  show "filter is_Exec (snd (run_batch f gid b)) =
           map (\<lambda>(key, query). Exec (query_context query) (Some gid)) b"
    by (simp add: rb fevs fevs' evs[symmetric])
  have "map Some evs' =
       map (\<lambda>((key, query), p).
              case p of
                Fulfilled v \<Rightarrow> Some (Resolve (query_id query) v)
              | Rejected r \<Rightarrow> (case toError r of Inr err \<Rightarrow> Some (Reject (query_id query) err)
                               | Inl t \<Rightarrow> None)) (zip b ps)"
    using results_forEach_all[of b ps] fe t len by simp
  also have "\<dots> = map (\<lambda>(key, query).
                  case f (query_context query) (Some gid) of
                    Promise (Fulfilled v) \<Rightarrow> Some (Resolve (query_id query) v)
                  | Promise (Rejected r) \<Rightarrow>
                      (case toError r of Inr err \<Rightarrow> Some (Reject (query_id query) err)
                       | Inl t \<Rightarrow> None)
                  | Throws e \<Rightarrow> None) b"
    using settled_by_own_call[where f = f and gid = gid and b = b and ps = ps
        and G = "\<lambda>query p. case p of
                Fulfilled v \<Rightarrow> Some (Resolve (query_id query) v)
              | Rejected r \<Rightarrow> (case toError r of Inr err \<Rightarrow> Some (Reject (query_id query) err)
                               | Inl t \<Rightarrow> None)"] calls
    by simp
  finally show "map Some (filter (\<lambda>e. is_Resolve e \<or> is_Reject e) (snd (run_batch f gid b))) =
           map (\<lambda>(key, query).
                  case f (query_context query) (Some gid) of
                    Promise (Fulfilled v) \<Rightarrow> Some (Resolve (query_id query) v)
                  | Promise (Rejected r) \<Rightarrow>
                      (case toError r of Inr err \<Rightarrow> Some (Reject (query_id query) err)
                       | Inl t \<Rightarrow> None)
                  | Throws e \<Rightarrow> None) b"
    by (simp add: rb fevs fevs')
  show "snd (run_batch f gid b) =
           filter is_Exec (snd (run_batch f gid b))
           @ filter (\<lambda>e. is_Resolve e \<or> is_Reject e) (snd (run_batch f gid b))"
    by (simp add: rb fevs fevs')
qed

lemma run_batch_calls:
  "prefix (filter is_Exec (snd (run_batch f gid b)))
          (map (\<lambda>(key, query). Exec (query_context query) (Some gid)) b)"
proof (cases "fst (run_batch f gid b)")
  case None
  then show ?thesis by (simp add: run_batch_complete(1))
next
  case (Some e)
  obtain res evs where bm: "batch_map f gid b = (res, evs)" by (cases "batch_map f gid b") auto
  show ?thesis
  proof (cases res)
    case (Inl t)
    then have "snd (run_batch f gid b) = evs" using bm by (simp add: run_batch_def)
    then show ?thesis
      using batch_map_calls[of f gid b] batch_map_only_calls[of f gid b] bm by simp
  next
    case (Inr ps)
    obtain t evs' where fe: "results_forEach b ps = (t, evs')" by (cases "results_forEach b ps") auto
    have "filter is_Exec (snd (run_batch f gid b)) = evs"
      using bm Inr fe batch_map_only_calls[of f gid b] results_forEach_no_calls[of b ps]
      by (simp add: run_batch_def)
    then show ?thesis
      using batch_map_calls[of f gid b] bm by simp
  qed
qed

lemma run_batch_no_callbacks:
  "filter is_ParallelStart (snd (run_batch f gid b)) = []"
  "filter is_ParallelComplete (snd (run_batch f gid b)) = []"
proof -
  have a: "filter is_ParallelStart (snd (batch_map f gid b)) = []"
    "filter is_ParallelComplete (snd (batch_map f gid b)) = []"
    by (induction b) (auto simp: invoke_def split: prod.splits called.splits sum.splits)
  have b: "\<And>ps. filter is_ParallelStart (snd (results_forEach b ps)) = []"
    "\<And>ps. filter is_ParallelComplete (snd (results_forEach b ps)) = []"
    subgoal for ps by (induction b ps rule: results_forEach.induct) (auto split: prod.splits sum.splits)
    subgoal for ps by (induction b ps rule: results_forEach.induct) (auto split: prod.splits sum.splits)
    done
  have ev: "snd (run_batch f gid b) =
      snd (batch_map f gid b)
      @ (case fst (batch_map f gid b) of Inl e \<Rightarrow> [] | Inr ps \<Rightarrow> snd (results_forEach b ps))"
    by (simp add: run_batch_def split: prod.splits sum.splits)
  show "filter is_ParallelStart (snd (run_batch f gid b)) = []"
    by (simp add: ev a(1) b(1) split: sum.splits)
  show "filter is_ParallelComplete (snd (run_batch f gid b)) = []"
    by (simp add: ev a(2) b(2) split: sum.splits)
qed

text \<open>The batches of a cohort, one after another.\<close>

lemma run_batches_complete:
  assumes "fst (run_batches f gid bs) = None"
  shows "filter is_Exec (snd (run_batches f gid bs)) =
           map (\<lambda>(key, query). Exec (query_context query) (Some gid)) (concat bs)"
    and "map Some (filter (\<lambda>e. is_Resolve e \<or> is_Reject e) (snd (run_batches f gid bs))) =
           map (\<lambda>(key, query).
                  case f (query_context query) (Some gid) of
                    Promise (Fulfilled v) \<Rightarrow> Some (Resolve (query_id query) v)
                  | Promise (Rejected r) \<Rightarrow>
                      (case toError r of Inr err \<Rightarrow> Some (Reject (query_id query) err)
                       | Inl t \<Rightarrow> None)
                  | Throws e \<Rightarrow> None) (concat bs)"
    and "snd (run_batches f gid bs) = concat (map (\<lambda>b. snd (run_batch f gid b)) bs)"
    and "\<forall>b\<in>set bs. fst (run_batch f gid b) = None"
  using assms
proof (induction bs)
  case Nil
  { case 1 show ?case by simp }
  { case 2 show ?case by simp }
  { case 3 show ?case by simp }
  { case 4 show ?case by simp }
next
  case (Cons b bs)
  obtain t evs where rb: "run_batch f gid b = (t, evs)" by (cases "run_batch f gid b") auto
  obtain t' evs' where rbs: "run_batches f gid bs = (t', evs')" by (cases "run_batches f gid bs") auto
  { case 1
    then have t: "t = None" and t': "t' = None" using rb rbs by (auto split: option.splits)
    show ?case
      using Cons.IH(1) run_batch_complete(1)[of f gid b] rb rbs t t' by simp }
  { case 2
    then have t: "t = None" and t': "t' = None" using rb rbs by (auto split: option.splits)
    show ?case
      using Cons.IH(2) run_batch_complete(2)[of f gid b] rb rbs t t' by simp }
  { case 3
    then have t: "t = None" and t': "t' = None" using rb rbs by (auto split: option.splits)
    show ?case
      using Cons.IH(3) rb rbs t t' by simp }
  { case 4
    then have t: "t = None" and t': "t' = None" using rb rbs by (auto split: option.splits)
    show ?case
      using Cons.IH(4) rb rbs t t' by simp }
qed

lemma run_batches_calls:
  "prefix (filter is_Exec (snd (run_batches f gid bs)))
          (map (\<lambda>(key, query). Exec (query_context query) (Some gid)) (concat bs))"
proof (induction bs)
  case Nil
  show ?case by simp
next
  case (Cons b bs)
  obtain t evs where rb: "run_batch f gid b = (t, evs)" by (cases "run_batch f gid b") auto
  obtain t' evs' where rbs: "run_batches f gid bs = (t', evs')" by (cases "run_batches f gid bs") auto
  show ?case
  proof (cases t)
    case (Some e)
    have "prefix (filter is_Exec evs) (map (\<lambda>(key, query). Exec (query_context query) (Some gid)) b)"
      using run_batch_calls[of f gid b] rb by simp
    then show ?thesis using rb Some by (simp add: prefix_prefix)
  next
    case None
    have "filter is_Exec evs = map (\<lambda>(key, query). Exec (query_context query) (Some gid)) b"
      using run_batch_complete(1)[of f gid b] rb None by simp
    then show ?thesis using Cons.IH rb rbs None by simp
  qed
qed

lemma run_batches_no_callbacks:
  "filter is_ParallelStart (snd (run_batches f gid bs)) = []"
  "filter is_ParallelComplete (snd (run_batches f gid bs)) = []"
proof (induction bs)
  case Nil
  { case 1 show ?case by simp }
  { case 2 show ?case by simp }
next
  case (Cons b bs)
  obtain t evs where rb: "run_batch f gid b = (t, evs)" by (cases "run_batch f gid b") auto
  obtain t' evs' where rbs: "run_batches f gid bs = (t', evs')" by (cases "run_batches f gid bs") auto
  have e: "filter is_ParallelStart evs = []" "filter is_ParallelComplete evs = []"
    using run_batch_no_callbacks[of f gid b] rb by simp_all
  { case 1 show ?case using Cons.IH(1) e rb rbs by (cases t) simp_all }
  { case 2 show ?case using Cons.IH(2) e rb rbs by (cases t) simp_all }
qed

text \<open>The result of a flush with two or more pending queries, and with exactly one.\<close>

lemma flushBatch_parallel_eq:
  assumes "length (pendingQueries ex) \<noteq> 0" "length (pendingQueries ex) \<noteq> 1"
    and "batches_loop (maxParallel_of (config ex) (length (pendingQueries ex))) (pendingQueries ex) 0 [] = Some bs"
    and "call_onParallelStart (onParallelStart ex) (genId (groupIdsGenerated ex))
           (int (min (length (pendingQueries ex))
              (maxParallel_of (config ex) (length (pendingQueries ex))))) = (ts, s)"
    and "run_batches subagentFn (genId (groupIdsGenerated ex)) bs = (tb, w)"
    and "call_onParallelComplete (onParallelComplete ex) (genId (groupIdsGenerated ex))
           \<lparr>results = [], parallelGroupId = genId (groupIdsGenerated ex),
            executionTimeMs = endTime - startTime,
            queryCount = int (length (pendingQueries ex))\<rparr> = (tc, z)"
  shows "flushBatch subagentFn genId startTime endTime ex =
     Some (case ts of Some e \<Rightarrow> Some e
           | None \<Rightarrow> (case tb of Some e \<Rightarrow> Some e | None \<Rightarrow> tc),
           emit (s @ (case ts of Some e \<Rightarrow> []
                      | None \<Rightarrow> w @ (case tb of Some e \<Rightarrow> [] | None \<Rightarrow> z)))
             (count_parallel (length (pendingQueries ex))
                (ex\<lparr>batchTimeout := None, pendingQueries := [],
                    groupIdsGenerated := groupIdsGenerated ex + 1\<rparr>)))"
  using assms
  by (cases ts; cases tb)
     (simp_all add: flushBatch_def Let_def generateParallelGroupId_def count_parallel_fields)

lemma flushBatch_single:
  assumes "pendingQueries ex = [(key, query)]"
  shows "flushBatch subagentFn genId startTime endTime ex =
     Some (case awaited_in_try (subagentFn (query_context query) None) of
             Fulfilled result \<Rightarrow> None
           | Rejected error \<Rightarrow> (case toError error of Inr err \<Rightarrow> None | Inl t \<Rightarrow> Some t),
           emit (Exec (query_context query) None #
                   (case awaited_in_try (subagentFn (query_context query) None) of
                      Fulfilled result \<Rightarrow> [Resolve (query_id query) result]
                    | Rejected error \<Rightarrow>
                        (case toError error of Inr err \<Rightarrow> [Reject (query_id query) err]
                         | Inl t \<Rightarrow> [])))
             (count_sequential (ex\<lparr>batchTimeout := None, pendingQueries := []\<rparr>)))"
  using assms
  by (simp add: flushBatch_def Let_def invoke_def split: settled.splits sum.splits)

text \<open>
  A flush of a cohort of two or more: the executor afterwards, and what the events added
  to the trace are. \<open>t\<close> is the exception that left \<open>flushBatch\<close>, if any.
\<close>

lemma flushBatch_parallel:
  fixes ex :: "'v ParallelExecutor"
  assumes n: "2 \<le> length (pendingQueries ex)"
  obtains t evs bs where
    "flushBatch subagentFn genId startTime endTime ex =
       Some (t, emit evs (count_parallel (length (pendingQueries ex))
                (ex\<lparr>batchTimeout := None, pendingQueries := [],
                    groupIdsGenerated := groupIdsGenerated ex + 1\<rparr>)))"
    and "batches_loop (maxParallel_of (config ex) (length (pendingQueries ex))) (pendingQueries ex) 0 [] = Some bs"
    and "concat bs = pendingQueries ex"
    and "\<forall>b\<in>set bs. b \<noteq> [] \<and> length b \<le> maxParallel_of (config ex) (length (pendingQueries ex))"
    and "maxParallelChildren (config ex) \<le> 0 \<longrightarrow> bs = [pendingQueries ex]"
    and "filter is_ParallelStart evs =
           (case onParallelStart ex of
              None \<Rightarrow> []
            | Some cb \<Rightarrow> [ParallelStart (genId (groupIdsGenerated ex))
                 (int (min (length (pendingQueries ex))
                    (maxParallel_of (config ex) (length (pendingQueries ex)))))])"
    and "prefix (filter is_Exec evs)
           (map (\<lambda>(key, query). Exec (query_context query) (Some (genId (groupIdsGenerated ex))))
              (pendingQueries ex))"
    and "prefix (filter is_ParallelComplete evs)
           (case onParallelComplete ex of
              None \<Rightarrow> []
            | Some cb \<Rightarrow> [ParallelComplete (genId (groupIdsGenerated ex))
                   \<lparr>results = [], parallelGroupId = genId (groupIdsGenerated ex),
                    executionTimeMs = endTime - startTime,
                    queryCount = int (length (pendingQueries ex))\<rparr>])"
    and "t = None \<Longrightarrow> filter is_Exec evs =
           map (\<lambda>(key, query). Exec (query_context query) (Some (genId (groupIdsGenerated ex))))
              (pendingQueries ex)"
    and "t = None \<Longrightarrow> map Some (filter (\<lambda>e. is_Resolve e \<or> is_Reject e) evs) =
           map (\<lambda>(key, query).
                  case subagentFn (query_context query) (Some (genId (groupIdsGenerated ex))) of
                    Promise (Fulfilled v) \<Rightarrow> Some (Resolve (query_id query) v)
                  | Promise (Rejected r) \<Rightarrow>
                      (case toError r of Inr err \<Rightarrow> Some (Reject (query_id query) err)
                       | Inl t \<Rightarrow> None)
                  | Throws e \<Rightarrow> None) (pendingQueries ex)"
    and "t = None \<Longrightarrow> filter is_ParallelComplete evs =
           (case onParallelComplete ex of
              None \<Rightarrow> []
            | Some cb \<Rightarrow> [ParallelComplete (genId (groupIdsGenerated ex))
                   \<lparr>results = [], parallelGroupId = genId (groupIdsGenerated ex),
                    executionTimeMs = endTime - startTime,
                    queryCount = int (length (pendingQueries ex))\<rparr>])"
    and "t = None \<Longrightarrow> filter (\<lambda>e. is_Exec e \<or> is_Resolve e \<or> is_Reject e) evs =
           concat (map (\<lambda>b. snd (run_batch subagentFn (genId (groupIdsGenerated ex)) b)) bs)"
    and "t = None \<Longrightarrow> \<forall>b\<in>set bs. fst (run_batch subagentFn (genId (groupIdsGenerated ex)) b) = None"
    and "(\<forall>cb. onParallelStart ex = Some cb \<longrightarrow>
            cb (genId (groupIdsGenerated ex))
               (int (min (length (pendingQueries ex))
                  (maxParallel_of (config ex) (length (pendingQueries ex))))) = None)
         \<Longrightarrow> fst (run_batches subagentFn (genId (groupIdsGenerated ex)) bs) = None
         \<Longrightarrow> (\<forall>cb. onParallelComplete ex = Some cb \<longrightarrow>
            cb (genId (groupIdsGenerated ex))
               \<lparr>results = [], parallelGroupId = genId (groupIdsGenerated ex),
                executionTimeMs = endTime - startTime,
                queryCount = int (length (pendingQueries ex))\<rparr> = None)
         \<Longrightarrow> t = None"
proof -
  let ?gid = "genId (groupIdsGenerated ex)"
  let ?qs = "pendingQueries ex"
  let ?k = "int (min (length ?qs) (maxParallel_of (config ex) (length ?qs)))"
  let ?res = "\<lparr>results = [], parallelGroupId = ?gid, executionTimeMs = endTime - startTime,
               queryCount = int (length ?qs)\<rparr>"
  let ?call = "\<lambda>(key, query). Exec (query_context query) (Some ?gid)"
  from make_batches[OF maxParallel_of_pos[OF n], of ?qs]
  obtain bs where b1: "batches_loop (maxParallel_of (config ex) (length ?qs)) ?qs 0 [] = Some bs"
    and b2: "concat bs = ?qs"
    and b3: "\<forall>b\<in>set bs. b \<noteq> [] \<and> length b \<le> maxParallel_of (config ex) (length ?qs)"
    and b4: "length ?qs \<le> maxParallel_of (config ex) (length ?qs) \<and> 0 < length ?qs \<longrightarrow> bs = [?qs]"
    by (elim exE conjE)
  have whole: "maxParallelChildren (config ex) \<le> 0 \<longrightarrow> bs = [?qs]"
    using b4 cohort_length_facts[OF n] by (simp add: maxParallel_of_unlimited)
  obtain ts s where st: "call_onParallelStart (onParallelStart ex) ?gid ?k = (ts, s::'v event list)"
    by (cases "call_onParallelStart (onParallelStart ex) ?gid ?k :: reason option \<times> 'v event list") auto
  obtain tb w where rb: "run_batches subagentFn ?gid bs = (tb, w)"
    by (cases "run_batches subagentFn ?gid bs") auto
  obtain tc z where cp: "call_onParallelComplete (onParallelComplete ex) ?gid ?res = (tc, z::'v event list)"
    by (cases "call_onParallelComplete (onParallelComplete ex) ?gid ?res :: reason option \<times> 'v event list") auto
  let ?t = "case ts of Some e \<Rightarrow> Some e | None \<Rightarrow> (case tb of Some e \<Rightarrow> Some e | None \<Rightarrow> tc)"
  let ?evs = "s @ (case ts of Some e \<Rightarrow> [] | None \<Rightarrow> w @ (case tb of Some e \<Rightarrow> [] | None \<Rightarrow> z))"
  note eq = flushBatch_parallel_eq[where ex = ex and genId = genId and subagentFn = subagentFn
      and startTime = startTime and endTime = endTime,
      OF cohort_length_facts[OF n, THEN conjunct1]
      cohort_length_facts[OF n, THEN conjunct2, THEN conjunct1] b1 st rb cp]
  have s: "s = (case onParallelStart ex of None \<Rightarrow> [] | Some cb \<Rightarrow> [ParallelStart ?gid ?k])"
    using st by (auto simp: call_onParallelStart_def split: option.splits)
  have z: "z = (case onParallelComplete ex of None \<Rightarrow> [] | Some cb \<Rightarrow> [ParallelComplete ?gid ?res])"
    using cp by (auto simp: call_onParallelComplete_def split: option.splits)
  have fs: "filter is_ParallelStart s = s" "filter is_Exec s = []"
    "filter is_ParallelComplete s = []" "filter (\<lambda>e. is_Resolve e \<or> is_Reject e) s = []"
    "filter (\<lambda>e. is_Exec e \<or> is_Resolve e \<or> is_Reject e) s = []"
    by (simp_all add: s split: option.splits)
  have fz: "filter is_ParallelStart z = []" "filter is_Exec z = []"
    "filter is_ParallelComplete z = z" "filter (\<lambda>e. is_Resolve e \<or> is_Reject e) z = []"
    "filter (\<lambda>e. is_Exec e \<or> is_Resolve e \<or> is_Reject e) z = []"
    by (simp_all add: z split: option.splits)
  have fw: "filter is_ParallelStart w = []" "filter is_ParallelComplete w = []"
    using run_batches_no_callbacks[of subagentFn ?gid bs] rb by simp_all
  have pw: "prefix (filter is_Exec w) (map ?call ?qs)"
    using run_batches_calls[of subagentFn ?gid bs] rb b2 by simp
  have cw: "tb = None \<Longrightarrow> filter is_Exec w = map ?call ?qs"
    "tb = None \<Longrightarrow> map Some (filter (\<lambda>e. is_Resolve e \<or> is_Reject e) w) =
           map (\<lambda>(key, query).
                  case subagentFn (query_context query) (Some ?gid) of
                    Promise (Fulfilled v) \<Rightarrow> Some (Resolve (query_id query) v)
                  | Promise (Rejected r) \<Rightarrow>
                      (case toError r of Inr err \<Rightarrow> Some (Reject (query_id query) err)
                       | Inl t \<Rightarrow> None)
                  | Throws e \<Rightarrow> None) ?qs"
    "tb = None \<Longrightarrow> w = concat (map (\<lambda>b. snd (run_batch subagentFn ?gid b)) bs)"
    "tb = None \<Longrightarrow> \<forall>b\<in>set bs. fst (run_batch subagentFn ?gid b) = None"
    using run_batches_complete[of subagentFn ?gid bs] rb b2 by simp_all
  have ww: "tb = None \<Longrightarrow> filter (\<lambda>e. is_Exec e \<or> is_Resolve e \<or> is_Reject e) w = w"
  proof -
    assume tb: "tb = None"
    have "\<And>b. b \<in> set bs \<Longrightarrow>
        filter (\<lambda>e. is_Exec e \<or> is_Resolve e \<or> is_Reject e) (snd (run_batch subagentFn ?gid b)) =
        snd (run_batch subagentFn ?gid b)"
    proof -
      fix b assume "b \<in> set bs"
      with cw(4)[OF tb] have c: "fst (run_batch subagentFn ?gid b) = None" by blast
      have "\<forall>e \<in> set (snd (run_batch subagentFn ?gid b)). is_Exec e \<or> is_Resolve e \<or> is_Reject e"
        by (subst run_batch_complete(3)[OF c]) auto
      then show "filter (\<lambda>e. is_Exec e \<or> is_Resolve e \<or> is_Reject e) (snd (run_batch subagentFn ?gid b)) =
        snd (run_batch subagentFn ?gid b)"
        by (simp add: filter_id_conv)
    qed
    then have "concat (map (\<lambda>b. filter (\<lambda>e. is_Exec e \<or> is_Resolve e \<or> is_Reject e)
                 (snd (run_batch subagentFn ?gid b))) bs) =
               concat (map (\<lambda>b. snd (run_batch subagentFn ?gid b)) bs)"
      by (simp cong: map_cong)
    then show ?thesis
      using cw(3)[OF tb] by (simp add: filter_concat comp_def)
  qed
  have tnone: "?t = None \<Longrightarrow> ts = None \<and> tb = None \<and> tc = None"
    by (cases ts; cases tb) simp_all
  show thesis
  proof (rule that[of ?t ?evs bs])
    show "flushBatch subagentFn genId startTime endTime ex =
       Some (?t, emit ?evs (count_parallel (length ?qs)
                (ex\<lparr>batchTimeout := None, pendingQueries := [],
                    groupIdsGenerated := groupIdsGenerated ex + 1\<rparr>)))"
      by (rule eq)
    show "batches_loop (maxParallel_of (config ex) (length ?qs)) ?qs 0 [] = Some bs" by (rule b1)
    show "concat bs = ?qs" by (rule b2)
    show "\<forall>b\<in>set bs. b \<noteq> [] \<and> length b \<le> maxParallel_of (config ex) (length ?qs)" by (rule b3)
    show "maxParallelChildren (config ex) \<le> 0 \<longrightarrow> bs = [?qs]" by (rule whole)
    show "filter is_ParallelStart ?evs =
           (case onParallelStart ex of None \<Rightarrow> [] | Some cb \<Rightarrow> [ParallelStart ?gid ?k])"
      by (cases ts; cases tb) (simp_all add: fs fw fz s[symmetric])
    show "prefix (filter is_Exec ?evs) (map ?call ?qs)"
      using pw by (cases ts; cases tb) (simp_all add: fs fw fz)
    show "prefix (filter is_ParallelComplete ?evs)
           (case onParallelComplete ex of None \<Rightarrow> [] | Some cb \<Rightarrow> [ParallelComplete ?gid ?res])"
      by (cases ts; cases tb) (simp_all add: fs fw fz z[symmetric])
    show "filter is_Exec ?evs = map ?call ?qs" if "?t = None"
      using tnone[OF that] cw(1) by (simp add: fs fw fz)
    show "map Some (filter (\<lambda>e. is_Resolve e \<or> is_Reject e) ?evs) =
           map (\<lambda>(key, query).
                  case subagentFn (query_context query) (Some ?gid) of
                    Promise (Fulfilled v) \<Rightarrow> Some (Resolve (query_id query) v)
                  | Promise (Rejected r) \<Rightarrow>
                      (case toError r of Inr err \<Rightarrow> Some (Reject (query_id query) err)
                       | Inl t \<Rightarrow> None)
                  | Throws e \<Rightarrow> None) ?qs" if "?t = None"
      using tnone[OF that] cw(2) by (simp add: fs fw fz)
    show "filter is_ParallelComplete ?evs =
           (case onParallelComplete ex of None \<Rightarrow> [] | Some cb \<Rightarrow> [ParallelComplete ?gid ?res])"
      if "?t = None"
      using tnone[OF that] by (simp add: fs fw fz z[symmetric])
    show "filter (\<lambda>e. is_Exec e \<or> is_Resolve e \<or> is_Reject e) ?evs =
           concat (map (\<lambda>b. snd (run_batch subagentFn ?gid b)) bs)" if "?t = None"
      using tnone[OF that] ww cw(3) by (simp add: fs fw fz)
    show "\<forall>b\<in>set bs. fst (run_batch subagentFn ?gid b) = None" if "?t = None"
      using tnone[OF that] cw(4) by simp
    show "?t = None"
      if "\<forall>cb. onParallelStart ex = Some cb \<longrightarrow> cb ?gid ?k = None"
        and "fst (run_batches subagentFn ?gid bs) = None"
        and "\<forall>cb. onParallelComplete ex = Some cb \<longrightarrow> cb ?gid ?res = None"
    proof -
      have "ts = None" using st that(1) by (auto simp: call_onParallelStart_def split: option.splits)
      moreover have "tb = None" using rb that(2) by simp
      moreover have "tc = None" using cp that(3) by (auto simp: call_onParallelComplete_def split: option.splits)
      ultimately show ?thesis by simp
    qed
  qed
qed

text \<open>
  When no member's call throws and every rejection reason can be turned into an \<open>Error\<close>,
  the batches run to their end.
\<close>

lemma batch_map_promises:
  assumes "\<forall>(key, query)\<in>set b. \<exists>p. f (query_context query) (Some gid) = Promise p"
  shows "\<exists>ps. fst (batch_map f gid b) = Inr ps"
  using assms
  by (induction b) (auto simp: invoke_def split: prod.splits called.splits sum.splits)

lemma results_forEach_converted:
  assumes "\<forall>p\<in>set ps. \<forall>r. p = Rejected r \<longrightarrow> (\<exists>err. toError r = Inr err)"
  shows "fst (results_forEach b ps) = None"
  using assms
  by (induction b ps rule: results_forEach.induct) (auto split: prod.splits sum.splits)

lemma run_batch_runs_to_end:
  assumes "\<forall>(key, query)\<in>set b. \<exists>p. f (query_context query) (Some gid) = Promise p
             \<and> (\<forall>r. p = Rejected r \<longrightarrow> (\<exists>err. toError r = Inr err))"
  shows "fst (run_batch f gid b) = None"
proof -
  have "\<forall>(key, query)\<in>set b. \<exists>p. f (query_context query) (Some gid) = Promise p"
    using assms by fastforce
  from batch_map_promises[where f = f and gid = gid and b = b, OF this]
  obtain ps where ps: "fst (batch_map f gid b) = Inr ps" ..
  from batch_map_all[where f = f and gid = gid and b = b, OF ps]
  have calls: "map (\<lambda>(key, query). f (query_context query) (Some gid)) b = map Promise ps" by simp
  have "\<forall>p\<in>set ps. \<forall>r. p = Rejected r \<longrightarrow> (\<exists>err. toError r = Inr err)"
  proof
    fix p assume "p \<in> set ps"
    then have "Promise p \<in> set (map Promise ps)" by simp
    then have "Promise p \<in> set (map (\<lambda>(key, query). f (query_context query) (Some gid)) b)"
      by (simp only: calls)
    then obtain key query where m: "(key, query) \<in> set b"
      and c: "f (query_context query) (Some gid) = Promise p"
      by auto
    from assms m c show "\<forall>r. p = Rejected r \<longrightarrow> (\<exists>err. toError r = Inr err)"
      by fastforce
  qed
  then have "fst (results_forEach b ps) = None" by (rule results_forEach_converted)
  then show ?thesis
    using ps by (cases "batch_map f gid b"; cases "results_forEach b ps") (simp add: run_batch_def)
qed

lemma run_batches_run_to_end:
  assumes "\<forall>(key, query)\<in>set (concat bs). \<exists>p. f (query_context query) (Some gid) = Promise p
             \<and> (\<forall>r. p = Rejected r \<longrightarrow> (\<exists>err. toError r = Inr err))"
  shows "fst (run_batches f gid bs) = None"
  using assms
proof (induction bs)
  case Nil
  show ?case by simp
next
  case (Cons b bs)
  have "fst (run_batch f gid b) = None"
    using Cons.prems by (intro run_batch_runs_to_end[where f = f and gid = gid and b = b]) auto
  moreover have "fst (run_batches f gid bs) = None"
    using Cons.prems by (intro Cons.IH) auto
  ultimately show ?case
    by (cases "run_batch f gid b"; cases "run_batches f gid bs") simp
qed

text \<open>
  So a flush of two or more queries runs to its end when the callbacks return, no call
  of \<open>subagentFn\<close> throws and every rejection reason can be turned into an \<open>Error\<close>.
  Then the cohort is cut into consecutive chunks, of at most \<open>maxParallelChildren\<close>
  members when that limit is positive and the whole cohort as one chunk otherwise; the
  chunks run one after another, the calls of a chunk and then the settling of its
  members; and every member is settled exactly once, by the result of its own call.
\<close>

lemma flushBatch_runs_to_end:
  fixes ex :: "'v ParallelExecutor"
  assumes n: "2 \<le> length (pendingQueries ex)"
    and start: "\<forall>cb. onParallelStart ex = Some cb \<longrightarrow>
            cb (genId (groupIdsGenerated ex))
               (int (min (length (pendingQueries ex))
                  (maxParallel_of (config ex) (length (pendingQueries ex))))) = None"
    and calls: "\<forall>(key, query)\<in>set (pendingQueries ex).
            \<exists>p. subagentFn (query_context query) (Some (genId (groupIdsGenerated ex))) = Promise p
               \<and> (\<forall>r. p = Rejected r \<longrightarrow> (\<exists>err. toError r = Inr err))"
    and complete: "\<forall>cb. onParallelComplete ex = Some cb \<longrightarrow>
            cb (genId (groupIdsGenerated ex))
               \<lparr>results = [], parallelGroupId = genId (groupIdsGenerated ex),
                executionTimeMs = endTime - startTime,
                queryCount = int (length (pendingQueries ex))\<rparr> = None"
  shows "case flushBatch subagentFn genId startTime endTime ex of
      None \<Rightarrow> False
    | Some (t, ex') \<Rightarrow> t = None"
proof (rule flushBatch_parallel[OF n, where subagentFn = subagentFn and genId = genId
      and startTime = startTime and endTime = endTime])
  fix t evs bs
  assume eq: "flushBatch subagentFn genId startTime endTime ex =
       Some (t, emit evs (count_parallel (length (pendingQueries ex))
                (ex\<lparr>batchTimeout := None, pendingQueries := [],
                    groupIdsGenerated := groupIdsGenerated ex + 1\<rparr>)))"
    and cc: "concat bs = pendingQueries ex"
    and t: "(\<forall>cb. onParallelStart ex = Some cb \<longrightarrow>
            cb (genId (groupIdsGenerated ex))
               (int (min (length (pendingQueries ex))
                  (maxParallel_of (config ex) (length (pendingQueries ex))))) = None)
         \<Longrightarrow> fst (run_batches subagentFn (genId (groupIdsGenerated ex)) bs) = None
         \<Longrightarrow> (\<forall>cb. onParallelComplete ex = Some cb \<longrightarrow>
            cb (genId (groupIdsGenerated ex))
               \<lparr>results = [], parallelGroupId = genId (groupIdsGenerated ex),
                executionTimeMs = endTime - startTime,
                queryCount = int (length (pendingQueries ex))\<rparr> = None)
         \<Longrightarrow> t = None"
  have rb: "fst (run_batches subagentFn (genId (groupIdsGenerated ex)) bs) = None"
    using calls cc
    by (intro run_batches_run_to_end[where f = subagentFn and bs = bs
          and gid = "genId (groupIdsGenerated ex)"]) simp
  have "t = None" by (rule t[OF start rb complete])
  then show ?thesis by (simp add: eq)
qed

lemma flushBatch_chunks_when_complete:
  fixes ex :: "'v ParallelExecutor"
  assumes n: "2 \<le> length (pendingQueries ex)"
  shows "case batches_loop (maxParallel_of (config ex) (length (pendingQueries ex)))
                (pendingQueries ex) 0 [] of
      None \<Rightarrow> False
    | Some batches \<Rightarrow>
        concat batches = pendingQueries ex
      \<and> (0 < maxParallelChildren (config ex) \<longrightarrow>
            (\<forall>b\<in>set batches. int (length b) \<le> maxParallelChildren (config ex)))
      \<and> (maxParallelChildren (config ex) = 0 \<longrightarrow> batches = [pendingQueries ex])
      \<and> (case flushBatch subagentFn genId startTime endTime ex of
            None \<Rightarrow> False
          | Some (t, ex') \<Rightarrow>
              t = None \<longrightarrow>
                filter (\<lambda>e. is_Exec e \<or> is_Resolve e \<or> is_Reject e) (new_events ex ex') =
                  concat (map (\<lambda>b. snd (run_batch subagentFn (genId (groupIdsGenerated ex)) b)) batches)
              \<and> (\<forall>b\<in>set batches.
                    filter is_Exec (snd (run_batch subagentFn (genId (groupIdsGenerated ex)) b)) =
                      map (\<lambda>(key, query). Exec (query_context query) (Some (genId (groupIdsGenerated ex)))) b
                  \<and> snd (run_batch subagentFn (genId (groupIdsGenerated ex)) b) =
                      filter is_Exec (snd (run_batch subagentFn (genId (groupIdsGenerated ex)) b))
                      @ filter (\<lambda>e. is_Resolve e \<or> is_Reject e)
                          (snd (run_batch subagentFn (genId (groupIdsGenerated ex)) b)))
              \<and> map Some (filter (\<lambda>e. is_Resolve e \<or> is_Reject e) (new_events ex ex')) =
                  map (\<lambda>(key, query).
                        case subagentFn (query_context query) (Some (genId (groupIdsGenerated ex))) of
                          Promise (Fulfilled v) \<Rightarrow> Some (Resolve (query_id query) v)
                        | Promise (Rejected r) \<Rightarrow>
                            (case toError r of Inr err \<Rightarrow> Some (Reject (query_id query) err)
                             | Inl t \<Rightarrow> None)
                        | Throws e \<Rightarrow> None) (pendingQueries ex))"
proof (rule flushBatch_parallel[OF n, where subagentFn = subagentFn and genId = genId
      and startTime = startTime and endTime = endTime])
  let ?gid = "genId (groupIdsGenerated ex)"
  fix t evs bs
  assume eq: "flushBatch subagentFn genId startTime endTime ex =
       Some (t, emit evs (count_parallel (length (pendingQueries ex))
                (ex\<lparr>batchTimeout := None, pendingQueries := [],
                    groupIdsGenerated := groupIdsGenerated ex + 1\<rparr>)))"
    and b1: "batches_loop (maxParallel_of (config ex) (length (pendingQueries ex))) (pendingQueries ex) 0 [] = Some bs"
    and cc: "concat bs = pendingQueries ex"
    and b3: "\<forall>b\<in>set bs. b \<noteq> [] \<and> length b \<le> maxParallel_of (config ex) (length (pendingQueries ex))"
    and b4: "maxParallelChildren (config ex) \<le> 0 \<longrightarrow> bs = [pendingQueries ex]"
    and work: "t = None \<Longrightarrow> filter (\<lambda>e. is_Exec e \<or> is_Resolve e \<or> is_Reject e) evs =
           concat (map (\<lambda>b. snd (run_batch subagentFn ?gid b)) bs)"
    and each: "t = None \<Longrightarrow> \<forall>b\<in>set bs. fst (run_batch subagentFn ?gid b) = None"
    and settled: "t = None \<Longrightarrow> map Some (filter (\<lambda>e. is_Resolve e \<or> is_Reject e) evs) =
           map (\<lambda>(key, query).
                  case subagentFn (query_context query) (Some ?gid) of
                    Promise (Fulfilled v) \<Rightarrow> Some (Resolve (query_id query) v)
                  | Promise (Rejected r) \<Rightarrow>
                      (case toError r of Inr err \<Rightarrow> Some (Reject (query_id query) err)
                       | Inl t \<Rightarrow> None)
                  | Throws e \<Rightarrow> None) (pendingQueries ex)"
  have zero: "maxParallelChildren (config ex) = 0 \<longrightarrow> bs = [pendingQueries ex]"
    using b4 by simp
  have new: "new_events ex (emit evs (count_parallel (length (pendingQueries ex))
                (ex\<lparr>batchTimeout := None, pendingQueries := [],
                    groupIdsGenerated := groupIdsGenerated ex + 1\<rparr>))) = evs"
    by (simp add: new_events_def emit_fields count_parallel_fields)
  have chunks: "t = None \<Longrightarrow> \<forall>b\<in>set bs.
        filter is_Exec (snd (run_batch subagentFn ?gid b)) =
          map (\<lambda>(key, query). Exec (query_context query) (Some ?gid)) b
      \<and> snd (run_batch subagentFn ?gid b) =
          filter is_Exec (snd (run_batch subagentFn ?gid b))
          @ filter (\<lambda>e. is_Resolve e \<or> is_Reject e) (snd (run_batch subagentFn ?gid b))"
    using each run_batch_complete(1,3)[where f = subagentFn and gid = ?gid] by blast
  show ?thesis
    unfolding b1 eq option.case prod.case new
    using cc chunk_bound[OF b3] zero work settled chunks by blast
qed

lemma example_genId_0: "example_genId 0 = ''pg-0''"
  by (simp add: example_genId_def digit_char_def)

lemma example_one_fields:
  "pendingQueries example_one = [(''q1'', \<lparr>query_id = ''q1'', query_context = ''a'', queuedAt = 0\<rparr>)]"
  "groupIdsGenerated example_one = 0"
  "stats example_one = \<lparr>totalQueries = 1, parallelBatches = 0, sequentialQueries = 0, totalParallelQueries = 0\<rparr>"
  "trace example_one = []"
  by (simp_all add: example_one_def sched_example_def example_query_def)

lemma example_three_fields:
  "pendingQueries example_three =
     [(''q1'', \<lparr>query_id = ''q1'', query_context = ''a'', queuedAt = 0\<rparr>),
      (''q2'', \<lparr>query_id = ''q2'', query_context = ''bad'', queuedAt = 0\<rparr>),
      (''q3'', \<lparr>query_id = ''q3'', query_context = ''c'', queuedAt = 0\<rparr>)]"
  "groupIdsGenerated example_three = 0"
  "stats example_three = \<lparr>totalQueries = 3, parallelBatches = 0, sequentialQueries = 0, totalParallelQueries = 0\<rparr>"
  "config example_three = \<lparr>maxParallelChildren = 2, batchWindowMs = 50, maxBudget = 1, currentDepth = 0, maxDepth = 3\<rparr>"
  "onParallelStart example_three = Some (\<lambda>groupId n. None)"
  "onParallelComplete example_three = Some (\<lambda>groupId res. None)"
  "trace example_three = []"
  by (simp_all add: example_three_def sched_example_def example_query_def)

text \<open>
  C5. A flush of exactly one pending query runs it directly: one call of \<open>subagentFn\<close>
  without a group id, the query settled by the result of that call, no group id
  generated, and the count of sequential queries one higher. A flush of two or more
  pending queries generates exactly one group id and counts no sequential query; every
  call of \<open>subagentFn\<close> that it makes is the call for a member, in the order of the
  cohort, and carries that id. When the flush runs to its end, these are the calls for all
  members, and every member is settled by the result of the call that was given the id.
\<close>

theorem flushBatch_group_id_assignment:
  fixes ex :: "'v ParallelExecutor"
  shows "(pendingQueries ex = [(key, query)] \<longrightarrow>
      (case flushBatch subagentFn genId startTime endTime ex of
         None \<Rightarrow> False
       | Some (t, ex') \<Rightarrow>
           new_events ex ex' =
             Exec (query_context query) None #
             (case subagentFn (query_context query) None of
                Promise (Fulfilled result) \<Rightarrow> [Resolve (query_id query) result]
              | Promise (Rejected error) \<Rightarrow>
                  (case toError error of Inr err \<Rightarrow> [Reject (query_id query) err] | Inl u \<Rightarrow> [])
              | Throws error \<Rightarrow>
                  (case toError error of Inr err \<Rightarrow> [Reject (query_id query) err] | Inl u \<Rightarrow> []))
         \<and> groupIdsGenerated ex' = groupIdsGenerated ex
         \<and> sequentialQueries (stats ex') = sequentialQueries (stats ex) + 1
         \<and> parallelBatches (stats ex') = parallelBatches (stats ex)))
   \<and> (2 \<le> length (pendingQueries ex) \<longrightarrow>
      (case flushBatch subagentFn genId startTime endTime ex of
         None \<Rightarrow> False
       | Some (t, ex') \<Rightarrow>
           groupIdsGenerated ex' = groupIdsGenerated ex + 1
         \<and> sequentialQueries (stats ex') = sequentialQueries (stats ex)
         \<and> parallelBatches (stats ex') = parallelBatches (stats ex) + 1
         \<and> prefix (filter is_Exec (new_events ex ex'))
              (map (\<lambda>(key, query). Exec (query_context query) (Some (genId (groupIdsGenerated ex))))
                 (pendingQueries ex))
         \<and> (t = None \<longrightarrow>
               filter is_Exec (new_events ex ex') =
                 map (\<lambda>(key, query). Exec (query_context query) (Some (genId (groupIdsGenerated ex))))
                   (pendingQueries ex)
             \<and> map Some (filter (\<lambda>e. is_Resolve e \<or> is_Reject e) (new_events ex ex')) =
                 map (\<lambda>(key, query).
                        case subagentFn (query_context query) (Some (genId (groupIdsGenerated ex))) of
                          Promise (Fulfilled v) \<Rightarrow> Some (Resolve (query_id query) v)
                        | Promise (Rejected r) \<Rightarrow>
                            (case toError r of Inr err \<Rightarrow> Some (Reject (query_id query) err)
                             | Inl u \<Rightarrow> None)
                        | Throws e \<Rightarrow> None) (pendingQueries ex))))"
proof (intro conjI impI)
  assume one: "pendingQueries ex = [(key, query)]"
  show "case flushBatch subagentFn genId startTime endTime ex of
         None \<Rightarrow> False
       | Some (t, ex') \<Rightarrow>
           new_events ex ex' =
             Exec (query_context query) None #
             (case subagentFn (query_context query) None of
                Promise (Fulfilled result) \<Rightarrow> [Resolve (query_id query) result]
              | Promise (Rejected error) \<Rightarrow>
                  (case toError error of Inr err \<Rightarrow> [Reject (query_id query) err] | Inl u \<Rightarrow> [])
              | Throws error \<Rightarrow>
                  (case toError error of Inr err \<Rightarrow> [Reject (query_id query) err] | Inl u \<Rightarrow> []))
         \<and> groupIdsGenerated ex' = groupIdsGenerated ex
         \<and> sequentialQueries (stats ex') = sequentialQueries (stats ex) + 1
         \<and> parallelBatches (stats ex') = parallelBatches (stats ex)"
    unfolding flushBatch_single[OF one] option.case prod.case
    by (simp add: new_events_def emit_fields count_sequential_fields
          split: called.splits settled.splits sum.splits)
next
  assume many: "2 \<le> length (pendingQueries ex)"
  show "case flushBatch subagentFn genId startTime endTime ex of
         None \<Rightarrow> False
       | Some (t, ex') \<Rightarrow>
           groupIdsGenerated ex' = groupIdsGenerated ex + 1
         \<and> sequentialQueries (stats ex') = sequentialQueries (stats ex)
         \<and> parallelBatches (stats ex') = parallelBatches (stats ex) + 1
         \<and> prefix (filter is_Exec (new_events ex ex'))
              (map (\<lambda>(key, query). Exec (query_context query) (Some (genId (groupIdsGenerated ex))))
                 (pendingQueries ex))
         \<and> (t = None \<longrightarrow>
               filter is_Exec (new_events ex ex') =
                 map (\<lambda>(key, query). Exec (query_context query) (Some (genId (groupIdsGenerated ex))))
                   (pendingQueries ex)
             \<and> map Some (filter (\<lambda>e. is_Resolve e \<or> is_Reject e) (new_events ex ex')) =
                 map (\<lambda>(key, query).
                        case subagentFn (query_context query) (Some (genId (groupIdsGenerated ex))) of
                          Promise (Fulfilled v) \<Rightarrow> Some (Resolve (query_id query) v)
                        | Promise (Rejected r) \<Rightarrow>
                            (case toError r of Inr err \<Rightarrow> Some (Reject (query_id query) err)
                             | Inl u \<Rightarrow> None)
                        | Throws e \<Rightarrow> None) (pendingQueries ex))"
  proof (rule flushBatch_parallel[OF many, where subagentFn = subagentFn and genId = genId
      and startTime = startTime and endTime = endTime])
    let ?gid = "genId (groupIdsGenerated ex)"
    fix t evs bs
    assume eq: "flushBatch subagentFn genId startTime endTime ex =
         Some (t, emit evs (count_parallel (length (pendingQueries ex))
                  (ex\<lparr>batchTimeout := None, pendingQueries := [],
                      groupIdsGenerated := groupIdsGenerated ex + 1\<rparr>)))"
      and calls: "prefix (filter is_Exec evs)
           (map (\<lambda>(key, query). Exec (query_context query) (Some ?gid)) (pendingQueries ex))"
      and all_calls: "t = None \<Longrightarrow> filter is_Exec evs =
           map (\<lambda>(key, query). Exec (query_context query) (Some ?gid)) (pendingQueries ex)"
      and settled: "t = None \<Longrightarrow> map Some (filter (\<lambda>e. is_Resolve e \<or> is_Reject e) evs) =
           map (\<lambda>(key, query).
                  case subagentFn (query_context query) (Some ?gid) of
                    Promise (Fulfilled v) \<Rightarrow> Some (Resolve (query_id query) v)
                  | Promise (Rejected r) \<Rightarrow>
                      (case toError r of Inr err \<Rightarrow> Some (Reject (query_id query) err)
                       | Inl t \<Rightarrow> None)
                  | Throws e \<Rightarrow> None) (pendingQueries ex)"
    have new: "new_events ex (emit evs (count_parallel (length (pendingQueries ex))
                  (ex\<lparr>batchTimeout := None, pendingQueries := [],
                      groupIdsGenerated := groupIdsGenerated ex + 1\<rparr>))) = evs"
      by (simp add: new_events_def emit_fields count_parallel_fields)
    show ?thesis
      unfolding eq option.case prod.case new
      using calls all_calls settled
      by (simp add: emit_fields count_parallel_fields)
  qed
qed

theorem flushBatch_group_id_assignment_witness:
  "(case flushBatch example_subagentFn example_genId 100 107 example_one of
      None \<Rightarrow> False
    | Some (t, ex') \<Rightarrow>
        t = None
      \<and> new_events example_one ex' = [Exec ''a'' None, Resolve ''q1'' ''done a'']
      \<and> groupIdsGenerated ex' = 0
      \<and> sequentialQueries (stats ex') = 1
      \<and> parallelBatches (stats ex') = 0)
   \<and> (case flushBatch example_subagentFn example_genId 100 107 example_three of
      None \<Rightarrow> False
    | Some (t, ex') \<Rightarrow>
        t = None
      \<and> groupIdsGenerated ex' = 1
      \<and> sequentialQueries (stats ex') = 0
      \<and> parallelBatches (stats ex') = 1
      \<and> filter is_Exec (new_events example_three ex') =
           [Exec ''a'' (Some ''pg-0''), Exec ''bad'' (Some ''pg-0''), Exec ''c'' (Some ''pg-0'')]
      \<and> filter (\<lambda>e. is_Resolve e \<or> is_Reject e) (new_events example_three ex') =
           [Resolve ''q1'' ''done a in pg-0'', Reject ''q2'' (ErrorObject ''boom''),
            Resolve ''q3'' ''done c in pg-0'']
      \<and> new_events example_three ex' =
           [ParallelStart ''pg-0'' 2,
            Exec ''a'' (Some ''pg-0''), Exec ''bad'' (Some ''pg-0''),
            Resolve ''q1'' ''done a in pg-0'', Reject ''q2'' (ErrorObject ''boom''),
            Exec ''c'' (Some ''pg-0''), Resolve ''q3'' ''done c in pg-0'',
            ParallelComplete ''pg-0''
              \<lparr>results = [], parallelGroupId = ''pg-0'', executionTimeMs = 7, queryCount = 3\<rparr>])"
proof -
  have h3: "2 \<le> length (pendingQueries example_three)"
    by (simp add: example_three_fields)
  note t1 = flushBatch_group_id_assignment[where ex = example_one and key = "''q1''"
      and query = "\<lparr>query_id = ''q1'', query_context = ''a'', queuedAt = 0\<rparr>"
      and subagentFn = example_subagentFn and genId = example_genId
      and startTime = 100 and endTime = 107, THEN conjunct1, THEN mp, OF example_one_fields(1)]
  note t3 = flushBatch_group_id_assignment[where ex = example_three and key = "''q1''"
      and query = "\<lparr>query_id = ''q1'', query_context = ''a'', queuedAt = 0\<rparr>"
      and subagentFn = example_subagentFn and genId = example_genId
      and startTime = 100 and endTime = 107, THEN conjunct2, THEN mp, OF h3]
  have e3: "case flushBatch example_subagentFn example_genId 100 107 example_three of
      None \<Rightarrow> False
    | Some (t, ex') \<Rightarrow>
        t = None
      \<and> new_events example_three ex' =
           [ParallelStart ''pg-0'' 2,
            Exec ''a'' (Some ''pg-0''), Exec ''bad'' (Some ''pg-0''),
            Resolve ''q1'' ''done a in pg-0'', Reject ''q2'' (ErrorObject ''boom''),
            Exec ''c'' (Some ''pg-0''), Resolve ''q3'' ''done c in pg-0'',
            ParallelComplete ''pg-0''
              \<lparr>results = [], parallelGroupId = ''pg-0'', executionTimeMs = 7, queryCount = 3\<rparr>]"
    by code_simp
  have e1: "case flushBatch example_subagentFn example_genId 100 107 example_one of
      None \<Rightarrow> False
    | Some (t, ex') \<Rightarrow>
        t = None \<and> trace ex' = [Exec ''a'' None, Resolve ''q1'' ''done a'']"
    by code_simp
  have c1: "case flushBatch example_subagentFn example_genId 100 107 example_one of
      None \<Rightarrow> False
    | Some (t, ex') \<Rightarrow>
        t = None
      \<and> new_events example_one ex' = [Exec ''a'' None, Resolve ''q1'' ''done a'']
      \<and> groupIdsGenerated ex' = 0
      \<and> sequentialQueries (stats ex') = 1
      \<and> parallelBatches (stats ex') = 0"
  proof (cases "flushBatch example_subagentFn example_genId 100 107 example_one")
    case None
    with t1 show ?thesis by simp
  next
    case (Some p)
    obtain t ex' where p: "p = (t, ex')" by (cases p) auto
    from e1 have t: "t = None" unfolding Some p by simp
    from t1 t show ?thesis
      unfolding Some p option.case prod.case
      by (simp add: example_one_fields example_subagentFn_def answer_def)
  qed
  have c3: "case flushBatch example_subagentFn example_genId 100 107 example_three of
      None \<Rightarrow> False
    | Some (t, ex') \<Rightarrow>
        t = None
      \<and> groupIdsGenerated ex' = 1
      \<and> sequentialQueries (stats ex') = 0
      \<and> parallelBatches (stats ex') = 1
      \<and> filter is_Exec (new_events example_three ex') =
           [Exec ''a'' (Some ''pg-0''), Exec ''bad'' (Some ''pg-0''), Exec ''c'' (Some ''pg-0'')]
      \<and> filter (\<lambda>e. is_Resolve e \<or> is_Reject e) (new_events example_three ex') =
           [Resolve ''q1'' ''done a in pg-0'', Reject ''q2'' (ErrorObject ''boom''),
            Resolve ''q3'' ''done c in pg-0'']
      \<and> new_events example_three ex' =
           [ParallelStart ''pg-0'' 2,
            Exec ''a'' (Some ''pg-0''), Exec ''bad'' (Some ''pg-0''),
            Resolve ''q1'' ''done a in pg-0'', Reject ''q2'' (ErrorObject ''boom''),
            Exec ''c'' (Some ''pg-0''), Resolve ''q3'' ''done c in pg-0'',
            ParallelComplete ''pg-0''
              \<lparr>results = [], parallelGroupId = ''pg-0'', executionTimeMs = 7, queryCount = 3\<rparr>]"
  proof (cases "flushBatch example_subagentFn example_genId 100 107 example_three")
    case None
    with t3 show ?thesis by simp
  next
    case (Some p)
    obtain t ex' where p: "p = (t, ex')" by (cases p) auto
    from e3 have t: "t = None"
      and tr: "new_events example_three ex' =
           [ParallelStart ''pg-0'' 2,
            Exec ''a'' (Some ''pg-0''), Exec ''bad'' (Some ''pg-0''),
            Resolve ''q1'' ''done a in pg-0'', Reject ''q2'' (ErrorObject ''boom''),
            Exec ''c'' (Some ''pg-0''), Resolve ''q3'' ''done c in pg-0'',
            ParallelComplete ''pg-0''
              \<lparr>results = [], parallelGroupId = ''pg-0'', executionTimeMs = 7, queryCount = 3\<rparr>]"
      unfolding Some p by simp_all
    from t3 t have f: "groupIdsGenerated ex' = 1
      \<and> sequentialQueries (stats ex') = 0
      \<and> parallelBatches (stats ex') = 1
      \<and> filter is_Exec (new_events example_three ex') =
           [Exec ''a'' (Some ''pg-0''), Exec ''bad'' (Some ''pg-0''), Exec ''c'' (Some ''pg-0'')]
      \<and> map Some (filter (\<lambda>e. is_Resolve e \<or> is_Reject e) (new_events example_three ex')) =
           map Some [Resolve ''q1'' ''done a in pg-0'', Reject ''q2'' (ErrorObject ''boom''),
            Resolve ''q3'' ''done c in pg-0'']"
      unfolding Some p option.case prod.case
      by (simp add: example_three_fields example_genId_0 example_subagentFn_def answer_def)
    then have st: "filter (\<lambda>e. is_Resolve e \<or> is_Reject e) (new_events example_three ex') =
           [Resolve ''q1'' ''done a in pg-0'', Reject ''q2'' (ErrorObject ''boom''),
            Resolve ''q3'' ''done c in pg-0'']"
      by (simp only: inj_map_eq_map[OF inj_Some])
    from f t st tr show ?thesis
      unfolding Some p option.case prod.case by (intro conjI) (simp_all only:)
  qed
  show ?thesis using c1 c3 by (rule conjI)
qed

text \<open>
  C6. Every member of a cohort is settled, whatever becomes of the other members. It is
  when no call throws and every rejection reason can be turned into an \<open>Error\<close> (lemmas
  above). But the calls of a batch are made outside any \<open>try\<close> block, unlike the call of
  the single-query branch: with three pending queries, a limit of two and a
  \<open>subagentFn\<close> that throws for the second member, the exception leaves \<open>flushBatch\<close>
  after two calls. No member is settled, the first one included, whose call returned a
  promise; the second chunk is not started, so the third member is never called. And
  when the second member's promise is rejected with a value that has no string
  conversion, the first member is resolved, and the second and the third are never
  settled.
\<close>

theorem flushBatch_throwing_call_settles_none:
  "map_option fst (flushBatch throwing_subagentFn example_genId 100 107 example_three) =
     Some (Some (Value (ErrorObject ''boom'')))
   \<and> map_option (trace \<circ> snd) (flushBatch throwing_subagentFn example_genId 100 107 example_three) =
     Some [ParallelStart ''pg-0'' 2, Exec ''a'' (Some ''pg-0''), Exec ''bad'' (Some ''pg-0'')]
   \<and> map_option fst (flushBatch unprintable_subagentFn example_genId 100 107 example_three) =
     Some (Some (Value (ErrorObject ''Cannot convert object to primitive value'')))
   \<and> map_option (trace \<circ> snd) (flushBatch unprintable_subagentFn example_genId 100 107 example_three) =
     Some [ParallelStart ''pg-0'' 2, Exec ''a'' (Some ''pg-0''), Exec ''bad'' (Some ''pg-0''),
           Resolve ''q1'' ''done a in pg-0'']"
  by code_simp




section \<open>Properties of the engine\<close>

lemma startsWith_iff: "startsWith s pat \<longleftrightarrow> (\<exists>ss. s = pat @ ss)"
  by (induction s pat rule: startsWith.induct) auto

lemma includes_str_iff: "includes_str s pat \<longleftrightarrow> (\<exists>ps ss. s = ps @ pat @ ss)"
proof (induction s)
  case Nil
  then show ?case by simp
next
  case (Cons c cs)
  show ?case
  proof
    assume "includes_str (c # cs) pat"
    then consider "startsWith (c # cs) pat" | "includes_str cs pat" by auto
    then show "\<exists>ps ss. c # cs = ps @ pat @ ss"
    proof cases
      case 1
      then obtain ss where "c # cs = pat @ ss" by (auto simp: startsWith_iff)
      then have "c # cs = [] @ pat @ ss" by simp
      then show ?thesis by blast
    next
      case 2
      with Cons.IH obtain ps ss where "cs = ps @ pat @ ss" by blast
      then have "c # cs = (c # ps) @ pat @ ss" by simp
      then show ?thesis by blast
    qed
  next
    assume "\<exists>ps ss. c # cs = ps @ pat @ ss"
    then obtain ps ss where e: "c # cs = ps @ pat @ ss" by blast
    show "includes_str (c # cs) pat"
    proof (cases ps)
      case Nil
      with e have "startsWith (c # cs) pat" by (auto simp: startsWith_iff)
      then show ?thesis by simp
    next
      case (Cons p ps')
      with e have "cs = ps' @ pat @ ss" by simp
      with Cons.IH have "includes_str cs pat" by blast
      then show ?thesis by simp
    qed
  qed
qed

text \<open>
  C2. In a run whose depth is at least \<open>MAX_DEPTH\<close>, a call of \<open>llm_query\<close> appends the
  depth marker to the captured output and throws. The rest of the run's state and the
  shared state (the usage accumulator among it) are unchanged, and the result does not
  depend on the engine that a spawn would call: no child run is started.
\<close>

theorem llm_query_depth_exceeded:
  assumes "subagent_depth \<ge> MAX_DEPTH cfg"
  shows "llm_query cfg child subagent_depth ctx run w =
     (Inl MaxDepthReached,
      run\<lparr>stdoutBuffer := stdoutBuffer run @
         CHR 0x0A # ''Error: MAXIMUM DEPTH REACHED. You must solve this task on your own without calling llm_query.'' @ [CHR 0x0A]\<rparr>,
      w)"
  using assms by (simp add: llm_query_def depth_marker_def newline_def)

theorem llm_query_depth_exceeded_witness:
  "MAX_DEPTH example_cfg \<le> 1
   \<and> llm_query example_cfg (subagent example_cfg env_spawn) 1 ''part'' example_run initial_world =
     (Inl MaxDepthReached,
      example_run\<lparr>stdoutBuffer :=
         CHR 0x0A # ''Error: MAXIMUM DEPTH REACHED. You must solve this task on your own without calling llm_query.'' @ [CHR 0x0A]\<rparr>,
      initial_world)"
proof -
  have h: "1 \<ge> MAX_DEPTH example_cfg" by (simp add: example_cfg_def)
  show ?thesis
    using h llm_query_depth_exceeded[OF h, where child = "subagent example_cfg env_spawn"
        and ctx = "''part''" and run = example_run and w = initial_world]
    by (simp add: example_run_def)
qed

text \<open>What \<open>generate_code\<close> leaves in the record of requests, and what it returns.\<close>

lemma generate_code_world:
  "snd (generate_code env sender msgs model_name is_leaf_agent w) =
     w\<lparr>requests := requests w @ [(sender, model_name, system_message env is_leaf_agent # msgs)]\<rparr>"
  by (simp add: generate_code_def chat_completions_create_def Let_def split: sum.splits)

lemma generate_code_result:
  "fst (generate_code env sender msgs model_name is_leaf_agent w) =
     (case create_completion env model_name (system_message env is_leaf_agent # msgs) of
        Inl msg \<Rightarrow> Inl (ApiError msg)
      | Inr completion \<Rightarrow>
          Inr \<lparr>code = extract_repl env (content (choice_message completion)),
               success = (extract_repl env (content (choice_message completion)) \<noteq> []),
               message = choice_message completion,
               usage = completion_usage completion\<rparr>)"
  by (simp add: generate_code_def chat_completions_create_def Let_def split: sum.splits)

text \<open>One pass of the loop body after a response of the provider.\<close>

lemma iteration_generated:
  assumes "fst (generate_code env depth (messages run)
                 (if depth = 0 then PRIMARY_AGENT cfg else SUB_AGENT cfg) (depth = MAX_DEPTH cfg) w) = Inr r"
  shows "iteration cfg env q ctx depth i run w =
     (case budget_check cfg (trackUsage (usage r) (globalUsage w)) of
        Some e \<Rightarrow>
          (Throw e, run\<lparr>messages := messages run @ [message r]\<rparr>,
           w\<lparr>requests := requests w @
                [(depth, if depth = 0 then PRIMARY_AGENT cfg else SUB_AGENT cfg,
                  system_message env (depth = MAX_DEPTH cfg) # messages run)],
             globalUsage := trackUsage (usage r) (globalUsage w)\<rparr>)
      | None \<Rightarrow>
          if \<not> success r
          then no_code_step cfg depth i r (run\<lparr>messages := messages run @ [message r]\<rparr>)
                 (w\<lparr>requests := requests w @
                      [(depth, if depth = 0 then PRIMARY_AGENT cfg else SUB_AGENT cfg,
                        system_message env (depth = MAX_DEPTH cfg) # messages run)],
                   globalUsage := trackUsage (usage r) (globalUsage w)\<rparr>)
          else (case execute_step env q ctx r (run\<lparr>messages := messages run @ [message r]\<rparr>)
                 (w\<lparr>requests := requests w @
                      [(depth, if depth = 0 then PRIMARY_AGENT cfg else SUB_AGENT cfg,
                        system_message env (depth = MAX_DEPTH cfg) # messages run)],
                   globalUsage := trackUsage (usage r) (globalUsage w)\<rparr>) of
                  (run2, w3) \<Rightarrow> after_execution cfg depth i r run2 w3))"
proof -
  have "generate_code env depth (messages run)
          (if depth = 0 then PRIMARY_AGENT cfg else SUB_AGENT cfg) (depth = MAX_DEPTH cfg) w =
        (Inr r, w\<lparr>requests := requests w @
                [(depth, if depth = 0 then PRIMARY_AGENT cfg else SUB_AGENT cfg,
                  system_message env (depth = MAX_DEPTH cfg) # messages run)]\<rparr>)"
    using assms generate_code_world[of env depth "messages run"
        "if depth = 0 then PRIMARY_AGENT cfg else SUB_AGENT cfg" "depth = MAX_DEPTH cfg" w]
    by (simp add: prod_eq_iff)
  then show ?thesis
    by (simp add: iteration_def Let_def getTotalUsage_def cong: option.case_cong if_cong)
qed

lemma budget_check_breach:
  assumes "(\<exists>c m. cost u = Num c \<and> MAX_MONEY_SPENT cfg = Dollars m \<and> c > m)
         \<or> completion_tokens u > MAX_COMPLETION_TOKENS cfg
         \<or> prompt_tokens u > MAX_PROMPT_TOKENS cfg"
  shows "budget_check cfg u \<in> {Some BudgetExceeded, Some CompletionTokenBudgetExceeded,
           Some PromptTokenBudgetExceeded}"
  using assms by (auto simp: budget_check_def split: jsnumber.splits money_limit.splits)

text \<open>
  C3, as stated: a ceiling breach is fatal to the whole run tree and the process. It is
  not: the child run below detects the breach of the completion-token ceiling (its model
  call brings the total to 25, over the ceiling 10) and throws, the error is raised in
  the code of the root run, which had set its final result before the spawn, and the
  root run returns that result; the process exits with status 0.
\<close>

theorem budget_breach_in_child_counterexample:
  "MAX_COMPLETION_TOKENS example_cfg = 10
   \<and> fst (subagent example_cfg env_spawn ''part'' 1
        (initial_world\<lparr>globalUsage := trackUsage (example_usage 5) zeroUsage\<rparr>))
       = Inl CompletionTokenBudgetExceeded
   \<and> fst (subagent example_cfg env_spawn ''task'' 0 initial_world) = Inr (PyStr ''partial'')
   \<and> completion_tokens (globalUsage (snd (subagent example_cfg env_spawn ''task'' 0 initial_world))) = 25
   \<and> fst (main example_cfg env_spawn ''task'') = 0"
  by code_simp

text \<open>
  C3, amended. After a model call the run that made it checks the accumulated cost,
  completion tokens and prompt tokens, each against its own ceiling, and a breach of any
  of them makes that run throw a budget error at once: nothing of the step is logged or
  executed. An error thrown by the root run makes the process exit with status 1.
\<close>

theorem budget_breach_aborts_run:
  assumes "i < MAX_CALLS cfg"
    and "fst (generate_code env depth (messages run)
                 (if depth = 0 then PRIMARY_AGENT cfg else SUB_AGENT cfg) (depth = MAX_DEPTH cfg) w) = Inr r"
    and "(\<exists>c m. cost (trackUsage (usage r) (globalUsage w)) = Num c
                \<and> MAX_MONEY_SPENT cfg = Dollars m \<and> c > m)
         \<or> completion_tokens (trackUsage (usage r) (globalUsage w)) > MAX_COMPLETION_TOKENS cfg
         \<or> prompt_tokens (trackUsage (usage r) (globalUsage w)) > MAX_PROMPT_TOKENS cfg"
  shows "fst (subagent_loop cfg env q ctx depth i run w)
           \<in> {Inl BudgetExceeded, Inl CompletionTokenBudgetExceeded, Inl PromptTokenBudgetExceeded}
       \<and> snd (subagent_loop cfg env q ctx depth i run w) =
           w\<lparr>requests := requests w @
                [(depth, if depth = 0 then PRIMARY_AGENT cfg else SUB_AGENT cfg,
                  system_message env (depth = MAX_DEPTH cfg) # messages run)],
             globalUsage := trackUsage (usage r) (globalUsage w)\<rparr>
       \<and> (fst (subagent cfg env stdin_text 0 initial_world)
              \<in> {Inl BudgetExceeded, Inl CompletionTokenBudgetExceeded, Inl PromptTokenBudgetExceeded}
            \<longrightarrow> fst (main cfg env stdin_text) = 1)"
proof -
  from budget_check_breach[OF assms(3)]
  obtain e' where e': "budget_check cfg (trackUsage (usage r) (globalUsage w)) = Some e'"
    and mem: "e' \<in> {BudgetExceeded, CompletionTokenBudgetExceeded, PromptTokenBudgetExceeded}"
    by auto
  have loop: "subagent_loop cfg env q ctx depth i run w =
      (Inl e', w\<lparr>requests := requests w @
                [(depth, if depth = 0 then PRIMARY_AGENT cfg else SUB_AGENT cfg,
                  system_message env (depth = MAX_DEPTH cfg) # messages run)],
             globalUsage := trackUsage (usage r) (globalUsage w)\<rparr>)"
    by (subst subagent_loop.simps) (simp add: assms(1) iteration_generated[OF assms(2)] e')
  have m: "fst (subagent cfg env stdin_text 0 initial_world)
              \<in> {Inl BudgetExceeded, Inl CompletionTokenBudgetExceeded, Inl PromptTokenBudgetExceeded}
            \<longrightarrow> fst (main cfg env stdin_text) = 1"
    by (cases "subagent cfg env stdin_text 0 initial_world") (auto simp: main_def has_message_def)
  show ?thesis
    using mem m unfolding loop by auto
qed

theorem budget_breach_aborts_run_witness:
  "fst (subagent_loop example_cfg env_silent_over
          (llm_query example_cfg (subagent example_cfg env_silent_over) 0) ''task'' 0 0
          example_run initial_world) = Inl CompletionTokenBudgetExceeded
   \<and> snd (subagent_loop example_cfg env_silent_over
          (llm_query example_cfg (subagent example_cfg env_silent_over) 0) ''task'' 0 0
          example_run initial_world) =
       initial_world\<lparr>requests := [(0, ''root-model'', [system_message env_silent_over False])],
                     globalUsage := example_usage 20\<rparr>
   \<and> fst (main example_cfg env_silent_over ''task'') = 1"
proof -
  have h1: "(0::int) < MAX_CALLS example_cfg" by (simp add: example_cfg_def)
  have h2: "fst (generate_code env_silent_over 0 (messages example_run)
      (if (0::int) = 0 then PRIMARY_AGENT example_cfg else SUB_AGENT example_cfg)
      (0 = MAX_DEPTH example_cfg) initial_world) =
      Inr \<lparr>code = [], success = False, message = assistant_message [], usage = example_usage 20\<rparr>"
    by (simp add: generate_code_result env_silent_over_def example_env_def example_cfg_def
          assistant_message_def)
  have tu: "trackUsage (example_usage 20) (globalUsage initial_world) = example_usage 20"
    by (simp add: trackUsage_def example_usage_def initial_world_def resetUsage_def zeroUsage_def)
  have h3: "(\<exists>c m. cost (trackUsage (usage \<lparr>code = [], success = False, message = assistant_message [],
                  usage = example_usage 20\<rparr>) (globalUsage initial_world)) = Num c
                \<and> MAX_MONEY_SPENT example_cfg = Dollars m \<and> c > m)
         \<or> completion_tokens (trackUsage (usage \<lparr>code = [], success = False,
                  message = assistant_message [], usage = example_usage 20\<rparr>)
               (globalUsage initial_world)) > MAX_COMPLETION_TOKENS example_cfg
         \<or> prompt_tokens (trackUsage (usage \<lparr>code = [], success = False,
                  message = assistant_message [], usage = example_usage 20\<rparr>)
               (globalUsage initial_world)) > MAX_PROMPT_TOKENS example_cfg"
    by (simp add: tu) (simp add: example_usage_def example_cfg_def)
  have root: "fst (subagent example_cfg env_silent_over ''task'' 0 initial_world)
      = Inl CompletionTokenBudgetExceeded"
    by code_simp
  note t = budget_breach_aborts_run[OF h1 h2 h3,
      where q = "llm_query example_cfg (subagent example_cfg env_silent_over) 0"
        and ctx = "''task''" and stdin_text = "''task''"]
  have c1: "fst (subagent_loop example_cfg env_silent_over
          (llm_query example_cfg (subagent example_cfg env_silent_over) 0) ''task'' 0 0
          example_run initial_world) = Inl CompletionTokenBudgetExceeded"
    by code_simp
  have c2: "snd (subagent_loop example_cfg env_silent_over
          (llm_query example_cfg (subagent example_cfg env_silent_over) 0) ''task'' 0 0
          example_run initial_world) =
       initial_world\<lparr>requests := [(0, ''root-model'', [system_message env_silent_over False])],
                     globalUsage := example_usage 20\<rparr>"
    using t by (simp add: tu) (simp add: example_cfg_def example_run_def initial_world_def)
  have c3: "fst (main example_cfg env_silent_over ''task'') = 1"
    using t root by simp
  show ?thesis using c1 c2 c3 by simp
qed

text \<open>
  C8, as stated: every step whose response holds no code is logged and followed by the
  corrective message and the next step. It is not when the usage of that response takes
  a total over its ceiling: the run below throws after its first model call, whose
  response has no code; the log holds the priming step only.
\<close>

theorem no_code_step_counterexample:
  "fst (generate_code env_silent_over 0
          [first_message example_cfg env_silent_over (''task'' @ newline)] ''root-model'' False
          (logStep 0 3 0 ''print(context)'' (Some ''task'') (Some False) None noUsage initial_world)) =
     Inr \<lparr>code = [], success = False, message = assistant_message [], usage = example_usage 20\<rparr>
   \<and> subagent example_cfg env_silent_over ''task'' 0 initial_world =
     (Inl CompletionTokenBudgetExceeded,
      \<lparr>globalUsage = example_usage 20,
       events = [Step \<lparr>sd_depth = 0, sd_step = 0, sd_maxSteps = 3, sd_code = ''print(context)'',
                       sd_output = Some ''task'', sd_hasError = Some False, sd_reasoning = None,
                       sd_usage = noUsage, sd_totalUsage = zeroUsage\<rparr>],
       requests = [(0, ''root-model'',
                    [system_message env_silent_over False,
                     first_message example_cfg env_silent_over (''task'' @ newline)])]\<rparr>)"
  by code_simp

text \<open>
  C8, amended. For a step whose response holds no code and whose usage takes no total
  over its ceiling, the loop goes on with the next step from a state in which the step is
  logged without output and error flag, the response and the corrective user message are
  appended to the transcript, and nothing else has changed but the usage and the record
  of the request: the captured output and the final result are as before, and nothing was
  executed.
\<close>

theorem no_code_step_recovers:
  assumes "i < MAX_CALLS cfg"
    and "fst (generate_code env depth (messages run)
                 (if depth = 0 then PRIMARY_AGENT cfg else SUB_AGENT cfg) (depth = MAX_DEPTH cfg) w) = Inr r"
    and "\<not> success r"
    and "budget_check cfg (trackUsage (usage r) (globalUsage w)) = None"
  shows "subagent_loop cfg env q ctx depth i run w =
     subagent_loop cfg env q ctx depth (i + 1)
       (run\<lparr>messages := messages run @ [message r, corrective_message]\<rparr>)
       (w\<lparr>requests := requests w @
            [(depth, if depth = 0 then PRIMARY_AGENT cfg else SUB_AGENT cfg,
              system_message env (depth = MAX_DEPTH cfg) # messages run)],
          globalUsage := trackUsage (usage r) (globalUsage w),
          events := events w @
            [Step \<lparr>sd_depth = depth, sd_step = i + 1, sd_maxSteps = MAX_CALLS cfg,
                   sd_code = code r, sd_output = None, sd_hasError = None,
                   sd_reasoning = reasoning (message r), sd_usage = usage r,
                   sd_totalUsage = trackUsage (usage r) (globalUsage w)\<rparr>]\<rparr>)"
  by (subst subagent_loop.simps)
     (simp add: assms iteration_generated[OF assms(2)] no_code_step_def logStep_def getTotalUsage_def)

theorem no_code_step_recovers_witness:
  "subagent_loop example_cfg env_silent
       (llm_query example_cfg (subagent example_cfg env_silent) 0) ''task'' 0 0
       example_run initial_world =
   subagent_loop example_cfg env_silent
       (llm_query example_cfg (subagent example_cfg env_silent) 0) ''task'' 0 1
       (example_run\<lparr>messages := [assistant_message [], corrective_message]\<rparr>)
       (initial_world\<lparr>requests := [(0, ''root-model'', [system_message env_silent False])],
          globalUsage := example_usage 3,
          events := [Step \<lparr>sd_depth = 0, sd_step = 1, sd_maxSteps = 3,
                   sd_code = [], sd_output = None, sd_hasError = None,
                   sd_reasoning = None, sd_usage = example_usage 3,
                   sd_totalUsage = example_usage 3\<rparr>]\<rparr>)"
proof -
  have h1: "(0::int) < MAX_CALLS example_cfg" by (simp add: example_cfg_def)
  have h2: "fst (generate_code env_silent 0 (messages example_run)
      (if (0::int) = 0 then PRIMARY_AGENT example_cfg else SUB_AGENT example_cfg)
      (0 = MAX_DEPTH example_cfg) initial_world) =
      Inr \<lparr>code = [], success = False, message = assistant_message [], usage = example_usage 3\<rparr>"
    by (simp add: generate_code_result env_silent_def example_env_def example_cfg_def
          assistant_message_def)
  have h3: "\<not> success \<lparr>code = [], success = False, message = assistant_message [],
      usage = example_usage 3\<rparr>"
    by simp
  have tu: "trackUsage (example_usage 3) (globalUsage initial_world) = example_usage 3"
    by (simp add: trackUsage_def example_usage_def initial_world_def resetUsage_def zeroUsage_def)
  have h4: "budget_check example_cfg (trackUsage (usage \<lparr>code = [], success = False,
      message = assistant_message [], usage = example_usage 3\<rparr>) (globalUsage initial_world)) = None"
    by (simp add: tu) (simp add: budget_check_def example_usage_def example_cfg_def)
  note t = no_code_step_recovers[OF h1 h2 h3 h4,
      where q = "llm_query example_cfg (subagent example_cfg env_silent) 0" and ctx = "''task''"]
  show ?thesis
    using t by (simp add: tu) (simp add: example_cfg_def example_run_def initial_world_def assistant_message_def)
qed

lemma fold_error_flagged:
  "includes_str (stdoutBuffer (fold_error (Some e) run)) ''Error''"
proof -
  have "\<exists>ps ss. stdoutBuffer (fold_error (Some e) run) = ps @ ''Error'' @ ss"
  proof (cases e)
    case (ErrorObject m)
    have "stdoutBuffer (fold_error (Some e) run) = (stdoutBuffer run @ newline) @ ''Error'' @ ('': '' @ m @ '' '')"
      by (simp add: fold_error_def ErrorObject)
    then show ?thesis by blast
  next
    case (NonError m)
    have "stdoutBuffer (fold_error (Some e) run) = (stdoutBuffer run @ newline) @ ''Error'' @ ('': '' @ m @ '' '')"
      by (simp add: fold_error_def NonError)
    then show ?thesis by blast
  qed
  then show ?thesis by (simp add: includes_str_iff)
qed

text \<open>
  C9, as stated: a failure whose message does not contain \<open>Error\<close> is not flagged. It
  is: the code below fails with the message \<open>boom\<close>, the text folded into the captured
  output is \<open>Error: boom\<close> after a line break, and the step is logged with the error flag
  set.
\<close>

theorem executed_step_error_flag_counterexample:
  "includes_str ''boom'' ''Error'' = False
   \<and> fst (generate_code env_crash 0 [] ''root-model'' False initial_world) =
       Inr \<lparr>code = ''crash'', success = True, message = assistant_message ''crash'',
            usage = example_usage 3\<rparr>
   \<and> sandbox env_crash ''task'' [assistant_message ''crash''] ''crash'' = Raise (ErrorObject ''boom'')
   \<and> iteration example_cfg env_crash
       (llm_query example_cfg (subagent example_cfg env_crash) 0) ''task'' 0 0
       example_run initial_world =
     (Continue,
      \<lparr>stdoutBuffer = [CHR 0x0A] @ ''Error: boom '', final_result_set = False,
       final_result = PyNone,
       messages = [assistant_message ''crash'',
                   \<lparr>role = ''user'',
                    content = ''Output: '' @ [CHR 0x0A] @ ''[FULL OUTPUT SHOWN]... ''
                                @ [CHR 0x0A] @ ''Error: boom '',
                    reasoning = None\<rparr>]\<rparr>,
      \<lparr>globalUsage = example_usage 3,
       events = [Step \<lparr>sd_depth = 0, sd_step = 1, sd_maxSteps = 3, sd_code = ''crash'',
                       sd_output = Some (''[FULL OUTPUT SHOWN]... '' @ [CHR 0x0A] @ ''Error: boom ''),
                       sd_hasError = Some True, sd_reasoning = None,
                       sd_usage = example_usage 3, sd_totalUsage = example_usage 3\<rparr>],
       requests = [(0, ''root-model'', [system_message env_crash False])]\<rparr>)"
proof -
  have a: "includes_str ''boom'' ''Error'' = False" by simp
  have b: "fst (generate_code env_crash 0 [] ''root-model'' False initial_world) =
       Inr \<lparr>code = ''crash'', success = True, message = assistant_message ''crash'',
            usage = example_usage 3\<rparr>"
    by code_simp
  have c: "sandbox env_crash ''task'' [assistant_message ''crash''] ''crash'' = Raise (ErrorObject ''boom'')"
    by (simp add: env_crash_def example_env_def example_sandbox_def)
  have d: "iteration example_cfg env_crash
       (llm_query example_cfg (subagent example_cfg env_crash) 0) ''task'' 0 0
       example_run initial_world =
     (Continue,
      \<lparr>stdoutBuffer = [CHR 0x0A] @ ''Error: boom '', final_result_set = False,
       final_result = PyNone,
       messages = [assistant_message ''crash'',
                   \<lparr>role = ''user'',
                    content = ''Output: '' @ [CHR 0x0A] @ ''[FULL OUTPUT SHOWN]... ''
                                @ [CHR 0x0A] @ ''Error: boom '',
                    reasoning = None\<rparr>]\<rparr>,
      \<lparr>globalUsage = example_usage 3,
       events = [Step \<lparr>sd_depth = 0, sd_step = 1, sd_maxSteps = 3, sd_code = ''crash'',
                       sd_output = Some (''[FULL OUTPUT SHOWN]... '' @ [CHR 0x0A] @ ''Error: boom ''),
                       sd_hasError = Some True, sd_reasoning = None,
                       sd_usage = example_usage 3, sd_totalUsage = example_usage 3\<rparr>],
       requests = [(0, ''root-model'', [system_message env_crash False])]\<rparr>)"
    by code_simp
  show ?thesis using a b c d by simp
qed

text \<open>
  C9, amended. For a step whose code was executed and did not set the final result, the
  logged error flag is true exactly when the captured output contains \<open>Error\<close>
  somewhere, so a program that merely prints the word is flagged; and when the code
  failed, the captured output contains \<open>Error\<close> whatever the message of the failure
  is, so the step is flagged.
\<close>

theorem executed_step_error_flag:
  assumes "fst (generate_code env depth (messages run)
                 (if depth = 0 then PRIMARY_AGENT cfg else SUB_AGENT cfg) (depth = MAX_DEPTH cfg) w) = Inr r"
    and "success r"
    and "budget_check cfg (trackUsage (usage r) (globalUsage w)) = None"
    and "execute_step env q ctx r (run\<lparr>messages := messages run @ [message r]\<rparr>)
           (w\<lparr>requests := requests w @
                [(depth, if depth = 0 then PRIMARY_AGENT cfg else SUB_AGENT cfg,
                  system_message env (depth = MAX_DEPTH cfg) # messages run)],
              globalUsage := trackUsage (usage r) (globalUsage w)\<rparr>) = (run2, w3)"
    and "\<not> final_result_set run2"
  shows "iteration cfg env q ctx depth i run w =
     (Continue,
      run2\<lparr>messages := messages run2 @
         [\<lparr>role = ''user'',
           content = ''Output: '' @ [CHR 0x0A] @ truncateText (TRUNCATE_LEN cfg) (stdoutBuffer run2),
           reasoning = None\<rparr>]\<rparr>,
      w3\<lparr>events := events w3 @
         [Step \<lparr>sd_depth = depth, sd_step = i + 1, sd_maxSteps = MAX_CALLS cfg,
                sd_code = code r,
                sd_output = Some (truncateText (TRUNCATE_LEN cfg) (stdoutBuffer run2)),
                sd_hasError = Some (\<exists>ps ss. stdoutBuffer run2 = ps @ ''Error'' @ ss),
                sd_reasoning = reasoning (message r), sd_usage = usage r,
                sd_totalUsage = globalUsage w3\<rparr>]\<rparr>)
    \<and> (fst (runPythonAsync q (sandbox env ctx (messages run @ [message r]) (code r))
              (run\<lparr>messages := messages run @ [message r], stdoutBuffer := []\<rparr>)
              (w\<lparr>requests := requests w @
                   [(depth, if depth = 0 then PRIMARY_AGENT cfg else SUB_AGENT cfg,
                     system_message env (depth = MAX_DEPTH cfg) # messages run)],
                 globalUsage := trackUsage (usage r) (globalUsage w)\<rparr>)) \<noteq> None
         \<longrightarrow> (\<exists>ps ss. stdoutBuffer run2 = ps @ ''Error'' @ ss))"
proof -
  let ?w2 = "w\<lparr>requests := requests w @
                   [(depth, if depth = 0 then PRIMARY_AGENT cfg else SUB_AGENT cfg,
                     system_message env (depth = MAX_DEPTH cfg) # messages run)],
                 globalUsage := trackUsage (usage r) (globalUsage w)\<rparr>"
  let ?res = "runPythonAsync q (sandbox env ctx (messages run @ [message r]) (code r))
              (run\<lparr>messages := messages run @ [message r], stdoutBuffer := []\<rparr>) ?w2"
  have first: "iteration cfg env q ctx depth i run w =
     (Continue,
      run2\<lparr>messages := messages run2 @
         [\<lparr>role = ''user'',
           content = ''Output: '' @ [CHR 0x0A] @ truncateText (TRUNCATE_LEN cfg) (stdoutBuffer run2),
           reasoning = None\<rparr>]\<rparr>,
      w3\<lparr>events := events w3 @
         [Step \<lparr>sd_depth = depth, sd_step = i + 1, sd_maxSteps = MAX_CALLS cfg,
                sd_code = code r,
                sd_output = Some (truncateText (TRUNCATE_LEN cfg) (stdoutBuffer run2)),
                sd_hasError = Some (\<exists>ps ss. stdoutBuffer run2 = ps @ ''Error'' @ ss),
                sd_reasoning = reasoning (message r), sd_usage = usage r,
                sd_totalUsage = globalUsage w3\<rparr>]\<rparr>)"
    using assms(2-5)
    by (simp add: iteration_generated[OF assms(1)] after_execution_def Let_def logStep_def
          getTotalUsage_def includes_str_iff newline_def)
  have second: "fst ?res \<noteq> None \<longrightarrow> (\<exists>ps ss. stdoutBuffer run2 = ps @ ''Error'' @ ss)"
  proof
    assume failed: "fst ?res \<noteq> None"
    obtain t run' w' where res: "?res = (t, run', w')" by (cases ?res) auto
    from failed res obtain e where t: "t = Some e" by (cases t) auto
    have "run2 = fold_error (Some e) run'"
      using assms(4) res t by (simp add: execute_step_def)
    then have "includes_str (stdoutBuffer run2) ''Error''"
      by (simp add: fold_error_flagged)
    then show "\<exists>ps ss. stdoutBuffer run2 = ps @ ''Error'' @ ss"
      by (simp add: includes_str_iff)
  qed
  show ?thesis using first second by (rule conjI)
qed

theorem executed_step_error_flag_witness:
  "iteration example_cfg env_report
       (llm_query example_cfg (subagent example_cfg env_report) 0) ''task'' 0 0
       example_run initial_world =
     (Continue,
      \<lparr>stdoutBuffer = ''Error rate: 0'' @ [CHR 0x0A], final_result_set = False,
       final_result = PyNone,
       messages = [assistant_message ''report'',
                   \<lparr>role = ''user'',
                    content = ''Output: '' @ [CHR 0x0A] @ ''[FULL OUTPUT SHOWN]... Error rate: 0'' @ [CHR 0x0A],
                    reasoning = None\<rparr>]\<rparr>,
      \<lparr>globalUsage = example_usage 3,
       events = [Step \<lparr>sd_depth = 0, sd_step = 1, sd_maxSteps = 3, sd_code = ''report'',
                       sd_output = Some (''[FULL OUTPUT SHOWN]... Error rate: 0'' @ [CHR 0x0A]),
                       sd_hasError = Some True, sd_reasoning = None,
                       sd_usage = example_usage 3, sd_totalUsage = example_usage 3\<rparr>],
       requests = [(0, ''root-model'', [system_message env_report False])]\<rparr>)
   \<and> fst (runPythonAsync (llm_query example_cfg (subagent example_cfg env_crash) 0)
            (Raise (ErrorObject ''boom''))
            (example_run\<lparr>messages := [assistant_message ''crash''], stdoutBuffer := []\<rparr>)
            (initial_world\<lparr>requests := [(0, ''root-model'', [system_message env_crash False])],
               globalUsage := example_usage 3\<rparr>)) = Some (ErrorObject ''boom'')
   \<and> (\<exists>ps ss. [CHR 0x0A] @ ''Error: boom '' = ps @ ''Error'' @ ss)"
proof -
  have tu: "trackUsage (example_usage 3) (globalUsage initial_world) = example_usage 3"
    by (simp add: trackUsage_def example_usage_def initial_world_def resetUsage_def zeroUsage_def)
  have part1: "iteration example_cfg env_report
       (llm_query example_cfg (subagent example_cfg env_report) 0) ''task'' 0 0
       example_run initial_world =
     (Continue,
      \<lparr>stdoutBuffer = ''Error rate: 0'' @ [CHR 0x0A], final_result_set = False,
       final_result = PyNone,
       messages = [assistant_message ''report'',
                   \<lparr>role = ''user'',
                    content = ''Output: '' @ [CHR 0x0A] @ ''[FULL OUTPUT SHOWN]... Error rate: 0'' @ [CHR 0x0A],
                    reasoning = None\<rparr>]\<rparr>,
      \<lparr>globalUsage = example_usage 3,
       events = [Step \<lparr>sd_depth = 0, sd_step = 1, sd_maxSteps = 3, sd_code = ''report'',
                       sd_output = Some (''[FULL OUTPUT SHOWN]... Error rate: 0'' @ [CHR 0x0A]),
                       sd_hasError = Some True, sd_reasoning = None,
                       sd_usage = example_usage 3, sd_totalUsage = example_usage 3\<rparr>],
       requests = [(0, ''root-model'', [system_message env_report False])]\<rparr>)"
  proof -
    let ?r = "\<lparr>code = ''report'', success = True, message = assistant_message ''report'',
              usage = example_usage 3\<rparr>"
    let ?run2 = "\<lparr>stdoutBuffer = ''Error rate: 0'' @ [CHR 0x0A], final_result_set = False,
         final_result = PyNone, messages = [assistant_message ''report'']\<rparr>"
    let ?w3 = "\<lparr>globalUsage = example_usage 3, events = [],
         requests = [(0, ''root-model'', [system_message env_report False])]\<rparr>"
    have h1: "fst (generate_code env_report 0 (messages example_run)
        (if (0::int) = 0 then PRIMARY_AGENT example_cfg else SUB_AGENT example_cfg)
        (0 = MAX_DEPTH example_cfg) initial_world) = Inr ?r"
      by (simp add: generate_code_result env_report_def example_env_def example_cfg_def
            assistant_message_def Let_def)
    have h2: "success ?r" by simp
    have h3: "budget_check example_cfg (trackUsage (usage ?r) (globalUsage initial_world)) = None"
      by (simp add: tu) (simp add: budget_check_def example_usage_def example_cfg_def)
    have h4: "execute_step env_report (llm_query example_cfg (subagent example_cfg env_report) 0)
         ''task'' ?r (example_run\<lparr>messages := messages example_run @ [message ?r]\<rparr>)
         (initial_world\<lparr>requests := requests initial_world @
              [(0, if (0::int) = 0 then PRIMARY_AGENT example_cfg else SUB_AGENT example_cfg,
                system_message env_report (0 = MAX_DEPTH example_cfg) # messages example_run)],
            globalUsage := trackUsage (usage ?r) (globalUsage initial_world)\<rparr>) = (?run2, ?w3)"
      by (simp add: tu)
         (simp add: execute_step_def env_report_def example_env_def example_sandbox_def
            example_run_def initial_world_def fold_error_def newline_def example_cfg_def)
    have h5: "\<not> final_result_set ?run2" by simp
    have inc: "(\<exists>ps ss. ''Error rate: 0'' @ [CHR 0x0A] = ps @ ''Error'' @ ss) = True"
      using includes_str_iff[of "''Error rate: 0'' @ [CHR 0x0A]" "''Error''"] by simp
    note t = executed_step_error_flag[OF h1 h2 h3 h4 h5, where i = 0, THEN conjunct1]
    show ?thesis
      using t inc
      by (simp add: example_cfg_def truncateText_def assistant_message_def)
  qed
  have part2: "fst (runPythonAsync (llm_query example_cfg (subagent example_cfg env_crash) 0)
            (Raise (ErrorObject ''boom''))
            (example_run\<lparr>messages := [assistant_message ''crash''], stdoutBuffer := []\<rparr>)
            (initial_world\<lparr>requests := [(0, ''root-model'', [system_message env_crash False])],
               globalUsage := example_usage 3\<rparr>)) = Some (ErrorObject ''boom'')"
    by simp
  have part3: "\<exists>ps ss. [CHR 0x0A] @ ''Error: boom '' = ps @ ''Error'' @ ss"
  proof -
    let ?r = "\<lparr>code = ''crash'', success = True, message = assistant_message ''crash'',
              usage = example_usage 3\<rparr>"
    let ?run2 = "\<lparr>stdoutBuffer = [CHR 0x0A] @ ''Error: boom '', final_result_set = False,
         final_result = PyNone, messages = [assistant_message ''crash'']\<rparr>"
    let ?w3 = "\<lparr>globalUsage = example_usage 3, events = [],
         requests = [(0, ''root-model'', [system_message env_crash False])]\<rparr>"
    have h1: "fst (generate_code env_crash 0 (messages example_run)
        (if (0::int) = 0 then PRIMARY_AGENT example_cfg else SUB_AGENT example_cfg)
        (0 = MAX_DEPTH example_cfg) initial_world) = Inr ?r"
      by (simp add: generate_code_result env_crash_def example_env_def example_cfg_def
            assistant_message_def Let_def)
    have h2: "success ?r" by simp
    have h3: "budget_check example_cfg (trackUsage (usage ?r) (globalUsage initial_world)) = None"
      by (simp add: tu) (simp add: budget_check_def example_usage_def example_cfg_def)
    have h4: "execute_step env_crash (llm_query example_cfg (subagent example_cfg env_crash) 0)
         ''task'' ?r (example_run\<lparr>messages := messages example_run @ [message ?r]\<rparr>)
         (initial_world\<lparr>requests := requests initial_world @
              [(0, if (0::int) = 0 then PRIMARY_AGENT example_cfg else SUB_AGENT example_cfg,
                system_message env_crash (0 = MAX_DEPTH example_cfg) # messages example_run)],
            globalUsage := trackUsage (usage ?r) (globalUsage initial_world)\<rparr>) = (?run2, ?w3)"
      by (simp add: tu)
         (simp add: execute_step_def env_crash_def example_env_def example_sandbox_def
            example_run_def initial_world_def fold_error_def newline_def example_cfg_def)
    have h5: "\<not> final_result_set ?run2" by simp
    note t = executed_step_error_flag[OF h1 h2 h3 h4 h5, where i = 0, THEN conjunct2]
    show ?thesis
      using t
      by (simp add: env_crash_def example_env_def example_sandbox_def)
  qed
  show ?thesis using part1 part2 part3 by simp
qed

lemma prompts_ok_logStep [simp]:
  "prompts_ok cfg env (logStep d m st c out he re u w) = prompts_ok cfg env w"
  by (simp add: prompts_ok_def logStep_def)

lemma prompts_ok_logFinalResult [simp]:
  "prompts_ok cfg env (logFinalResult d v w) = prompts_ok cfg env w"
  by (simp add: prompts_ok_def logFinalResult_def)

lemma runPythonAsync_prompts_ok:
  assumes q: "query_keeps_prompts_ok cfg env q"
  shows "prompts_ok cfg env w \<Longrightarrow> prompts_ok cfg env (snd (snd (runPythonAsync q p run w)))"
proof (induction p arbitrary: run w)
  case (LlmQuery c k)
  obtain r run' w' where qr: "q c run w = (r, run', w')" by (cases "q c run w") auto
  have "prompts_ok cfg env (snd (snd (q c run w)))"
    using q LlmQuery.prems unfolding query_keeps_prompts_ok_def by blast
  then have "prompts_ok cfg env w'" using qr by simp
  then have "prompts_ok cfg env (snd (snd (runPythonAsync q (k r) run' w')))"
    by (rule LlmQuery.IH[OF rangeI])
  then show ?case by (simp add: qr)
qed simp_all

lemma llm_query_prompts_ok:
  assumes child: "child_keeps_prompts_ok cfg env child"
  shows "query_keeps_prompts_ok cfg env (llm_query cfg child depth)"
  unfolding query_keeps_prompts_ok_def
proof (intro allI impI)
  fix c run w assume w: "prompts_ok cfg env w"
  show "prompts_ok cfg env (snd (snd (llm_query cfg child depth c run w)))"
  proof (cases "depth \<ge> MAX_DEPTH cfg")
    case True
    then show ?thesis using w by (simp add: llm_query_def)
  next
    case False
    obtain out w' where cw: "child c (depth + 1) w = (out, w')" by (cases "child c (depth + 1) w") auto
    have "prompts_ok cfg env (snd (child c (depth + 1) w))"
      using child w unfolding child_keeps_prompts_ok_def by blast
    then have "prompts_ok cfg env w'" using cw by simp
    then show ?thesis using False cw by (simp add: llm_query_def)
  qed
qed

lemma execute_step_prompts_ok:
  assumes q: "query_keeps_prompts_ok cfg env q"
    and w: "prompts_ok cfg env w"
  shows "prompts_ok cfg env (snd (execute_step env q ctx r run w))"
proof -
  let ?res = "runPythonAsync q (sandbox env ctx (messages run) (code r)) (run\<lparr>stdoutBuffer := []\<rparr>) w"
  have "prompts_ok cfg env (snd (snd ?res))"
    by (rule runPythonAsync_prompts_ok[OF q w])
  then show ?thesis
    by (cases ?res) (simp add: execute_step_def)
qed

lemma after_execution_prompts_ok:
  "prompts_ok cfg env w \<Longrightarrow> prompts_ok cfg env (snd (snd (after_execution cfg depth i r run w)))"
  by (simp add: after_execution_def Let_def)

lemma iteration_prompts_ok:
  assumes q: "query_keeps_prompts_ok cfg env q"
    and w: "prompts_ok cfg env w"
  shows "prompts_ok cfg env (snd (snd (iteration cfg env q ctx depth i run w)))"
proof -
  let ?model = "if depth = 0 then PRIMARY_AGENT cfg else SUB_AGENT cfg"
  let ?w1 = "w\<lparr>requests := requests w @
                 [(depth, ?model, system_message env (depth = MAX_DEPTH cfg) # messages run)]\<rparr>"
  have w1: "prompts_ok cfg env ?w1"
    using w by (simp add: prompts_ok_def prompt_ok_def)
  have gw: "generate_code env depth (messages run) ?model (depth = MAX_DEPTH cfg) w =
      (fst (generate_code env depth (messages run) ?model (depth = MAX_DEPTH cfg) w), ?w1)"
    using generate_code_world[of env depth "messages run" ?model "depth = MAX_DEPTH cfg" w]
    by (simp add: prod_eq_iff)
  show ?thesis
  proof (cases "fst (generate_code env depth (messages run) ?model (depth = MAX_DEPTH cfg) w)")
    case (Inl e)
    then show ?thesis using w1 gw by (simp add: iteration_def Let_def)
  next
    case (Inr r)
    let ?w2 = "?w1\<lparr>globalUsage := trackUsage (usage r) (globalUsage w)\<rparr>"
    let ?run1 = "run\<lparr>messages := messages run @ [message r]\<rparr>"
    have w2: "prompts_ok cfg env ?w2"
      using w1 by (simp add: prompts_ok_def)
    show ?thesis
    proof (cases "budget_check cfg (trackUsage (usage r) (globalUsage w))")
      case (Some e)
      then show ?thesis using w2 by (simp add: iteration_generated[OF Inr])
    next
      case None
      show ?thesis
      proof (cases "success r")
        case False
        then show ?thesis using w2 None
          by (simp add: iteration_generated[OF Inr] no_code_step_def)
      next
        case True
        obtain run2 w3 where ex: "execute_step env q ctx r ?run1 ?w2 = (run2, w3)"
          by (cases "execute_step env q ctx r ?run1 ?w2") auto
        have "prompts_ok cfg env (snd (execute_step env q ctx r ?run1 ?w2))"
          by (rule execute_step_prompts_ok[OF q w2])
        then have "prompts_ok cfg env w3" using ex by simp
        then have "prompts_ok cfg env (snd (snd (after_execution cfg depth i r run2 w3)))"
          by (rule after_execution_prompts_ok)
        then show ?thesis using True None ex
          by (simp add: iteration_generated[OF Inr])
      qed
    qed
  qed
qed

lemma subagent_loop_prompts_ok:
  "query_keeps_prompts_ok cfg env q \<Longrightarrow> prompts_ok cfg env w
     \<Longrightarrow> prompts_ok cfg env (snd (subagent_loop cfg env q ctx depth i run w))"
proof (induction cfg env q ctx depth i run w rule: subagent_loop.induct)
  case (1 cfg env q ctx depth i run w)
  show ?case
  proof (cases "i < MAX_CALLS cfg")
    case False
    then show ?thesis using "1.prems" by (subst subagent_loop.simps) simp
  next
    case True
    obtain out run' w' where it: "iteration cfg env q ctx depth i run w = (out, run', w')"
      by (cases "iteration cfg env q ctx depth i run w") auto
    have "prompts_ok cfg env (snd (snd (iteration cfg env q ctx depth i run w)))"
      by (rule iteration_prompts_ok[OF "1.prems"])
    then have w': "prompts_ok cfg env w'" using it by simp
    show ?thesis
    proof (cases out)
      case Continue
      have "prompts_ok cfg env (snd (subagent_loop cfg env q ctx depth (i + 1) run' w'))"
        using "1.IH"[OF True it[symmetric] _ _ "1.prems"(1) w'] Continue by simp
      then show ?thesis using True it Continue by (subst subagent_loop.simps) simp
    next
      case (Return v)
      then show ?thesis using True it w' by (subst subagent_loop.simps) simp
    next
      case (Throw e)
      then show ?thesis using True it w' by (subst subagent_loop.simps) simp
    qed
  qed
qed

lemma subagent_run_prompts_ok:
  assumes child: "child_keeps_prompts_ok cfg env child"
    and w: "prompts_ok cfg env w"
  shows "prompts_ok cfg env (snd (subagent_run cfg env child ctx depth w))"
proof -
  let ?q = "llm_query cfg child depth"
  let ?run0 = "\<lparr>stdoutBuffer = [], final_result_set = False, final_result = PyNone, messages = []\<rparr>"
  have q: "query_keeps_prompts_ok cfg env ?q"
    by (rule llm_query_prompts_ok[OF child])
  obtain t run1 w1 where pr: "runPythonAsync ?q (sandbox env ctx [] (initial_code env)) ?run0 w = (t, run1, w1)"
    by (cases "runPythonAsync ?q (sandbox env ctx [] (initial_code env)) ?run0 w") auto
  have "prompts_ok cfg env (snd (snd (runPythonAsync ?q (sandbox env ctx [] (initial_code env)) ?run0 w)))"
    by (rule runPythonAsync_prompts_ok[OF q w])
  then have w1: "prompts_ok cfg env w1" using pr by simp
  show ?thesis
  proof (cases t)
    case (Some e)
    then show ?thesis using pr w1 by (simp add: subagent_run_def Let_def)
  next
    case None
    let ?w2 = "logStep depth (MAX_CALLS cfg) 0 (initial_code env)
                         (Some (trim (stdoutBuffer run1))) (Some False) None noUsage w1"
    have w2: "prompts_ok cfg env ?w2" using w1 by simp
    have "prompts_ok cfg env (snd (subagent_loop cfg env ?q ctx depth 0
            (run1\<lparr>messages := [first_message cfg env (stdoutBuffer run1)]\<rparr>) ?w2))"
      by (rule subagent_loop_prompts_ok[OF q w2])
    then show ?thesis using pr None by (simp add: subagent_run_def Let_def)
  qed
qed

lemma subagent_tree_prompts_ok:
  "child_keeps_prompts_ok cfg env (subagent_tree n cfg env)"
proof (induction n)
  case 0
  have d: "child_keeps_prompts_ok cfg env (\<lambda>ctx d w. (Inl MaxDepthReached, w))"
    by (simp add: child_keeps_prompts_ok_def)
  show ?case
    unfolding child_keeps_prompts_ok_def
    using subagent_run_prompts_ok[OF d] by simp
next
  case (Suc n)
  show ?case
    unfolding child_keeps_prompts_ok_def
    using subagent_run_prompts_ok[OF Suc] by simp
qed

lemma subagent_prompts_ok:
  "prompts_ok cfg env w \<Longrightarrow> prompts_ok cfg env (snd (subagent cfg env ctx depth w))"
  using subagent_tree_prompts_ok[of cfg env "nat (MAX_DEPTH cfg - depth)"]
  unfolding child_keeps_prompts_ok_def subagent_def by blast

text \<open>The recursion equation of the source: the spawn primitive calls the engine itself.\<close>

lemma llm_query_cong:
  assumes "subagent_depth < MAX_DEPTH cfg \<Longrightarrow> child1 ctx (subagent_depth + 1) w = child2 ctx (subagent_depth + 1) w"
  shows "llm_query cfg child1 subagent_depth ctx run w = llm_query cfg child2 subagent_depth ctx run w"
  using assms by (simp add: llm_query_def)

lemma subagent_unfold:
  "subagent cfg env ctx subagent_depth w =
     subagent_run cfg env (subagent cfg env) ctx subagent_depth w"
proof (cases "subagent_depth < MAX_DEPTH cfg")
  case True
  then obtain n where n: "nat (MAX_DEPTH cfg - subagent_depth) = Suc n"
    and n': "nat (MAX_DEPTH cfg - (subagent_depth + 1)) = n"
    by (cases "nat (MAX_DEPTH cfg - subagent_depth)") auto
  have q: "llm_query cfg (subagent_tree n cfg env) subagent_depth =
           llm_query cfg (subagent cfg env) subagent_depth"
    by (intro ext llm_query_cong) (simp add: subagent_def n')
  show ?thesis
    by (simp add: subagent_def[of cfg env ctx] n subagent_run_def q)
next
  case False
  then have n: "nat (MAX_DEPTH cfg - subagent_depth) = 0" by simp
  have q: "llm_query cfg (\<lambda>ctx d w. (Inl MaxDepthReached, w)) subagent_depth =
           llm_query cfg (subagent cfg env) subagent_depth"
    using False by (intro ext llm_query_cong) simp
  show ?thesis
    by (simp add: subagent_def[of cfg env ctx] n subagent_run_def q)
qed

text \<open>
  A pass of the step loop asks the provider once, and depends on the provider only
  through the answer to that request: the model of the run's depth, and the system
  message of the run's depth before the transcript.
\<close>

lemma iteration_provider:
  assumes "provider (if d = 0 then PRIMARY_AGENT cfg else SUB_AGENT cfg)
             (\<lparr>role = ''system'',
               content = (if d = MAX_DEPTH cfg then LEAF_AGENT_SYSTEM_PROMPT env
                          else SYSTEM_PROMPT env),
               reasoning = None\<rparr> # messages run) =
           create_completion env (if d = 0 then PRIMARY_AGENT cfg else SUB_AGENT cfg)
             (\<lparr>role = ''system'',
               content = (if d = MAX_DEPTH cfg then LEAF_AGENT_SYSTEM_PROMPT env
                          else SYSTEM_PROMPT env),
               reasoning = None\<rparr> # messages run)"
  shows "iteration cfg (env\<lparr>create_completion := provider\<rparr>) q ctx d i run w =
         iteration cfg env q ctx d i run w"
proof -
  have gc: "generate_code (env\<lparr>create_completion := provider\<rparr>) d (messages run)
              (if d = 0 then PRIMARY_AGENT cfg else SUB_AGENT cfg) (d = MAX_DEPTH cfg) w =
            generate_code env d (messages run)
              (if d = 0 then PRIMARY_AGENT cfg else SUB_AGENT cfg) (d = MAX_DEPTH cfg) w"
  proof -
    have sm: "system_message (env\<lparr>create_completion := provider\<rparr>) = system_message env"
      by (rule ext) (simp add: system_message_def)
    have er: "extract_repl (env\<lparr>create_completion := provider\<rparr>) = extract_repl env"
      by simp
    have a: "provider (if d = 0 then PRIMARY_AGENT cfg else SUB_AGENT cfg)
               (system_message env (d = MAX_DEPTH cfg) # messages run) =
             create_completion env (if d = 0 then PRIMARY_AGENT cfg else SUB_AGENT cfg)
               (system_message env (d = MAX_DEPTH cfg) # messages run)"
      using assms unfolding system_message_def .
    have cc: "chat_completions_create (env\<lparr>create_completion := provider\<rparr>) d
                (if d = 0 then PRIMARY_AGENT cfg else SUB_AGENT cfg)
                (system_message env (d = MAX_DEPTH cfg) # messages run) w =
              chat_completions_create env d
                (if d = 0 then PRIMARY_AGENT cfg else SUB_AGENT cfg)
                (system_message env (d = MAX_DEPTH cfg) # messages run) w"
      by (simp add: chat_completions_create_def a split del: if_split)
    show ?thesis
      unfolding generate_code_def sm cc er by (rule refl)
  qed
  have ex: "\<And>r run' w'. execute_step (env\<lparr>create_completion := provider\<rparr>) q ctx r run' w' =
            execute_step env q ctx r run' w'"
    by (simp add: execute_step_def)
  show ?thesis
    unfolding iteration_def Let_def gc ex by (rule refl)
qed

text \<open>
  C10. Every request that a run and the runs below it send to the provider starts with
  a system message, and its content is the leaf-agent prompt when the depth of the
  sending run equals \<open>MAX_DEPTH\<close> and the standard prompt at every other depth. The
  requests are recorded where they are handed to the provider, and a pass of the step
  loop of a run at depth \<open>d\<close> depends on the provider only through its answer to the
  request that starts with the system message of that depth.
\<close>

theorem system_prompt_by_depth:
  assumes "requests w = []"
  shows "(\<forall>(d, model, msgs) \<in> set (requests (snd (subagent cfg env ctx subagent_depth w))).
           \<exists>rest. msgs =
             \<lparr>role = ''system'',
              content = (if d = MAX_DEPTH cfg then LEAF_AGENT_SYSTEM_PROMPT env
                         else SYSTEM_PROMPT env),
              reasoning = None\<rparr> # rest)
       \<and> (\<forall>provider.
             provider (if d = 0 then PRIMARY_AGENT cfg else SUB_AGENT cfg)
               (\<lparr>role = ''system'',
                 content = (if d = MAX_DEPTH cfg then LEAF_AGENT_SYSTEM_PROMPT env
                            else SYSTEM_PROMPT env),
                 reasoning = None\<rparr> # messages run) =
             create_completion env (if d = 0 then PRIMARY_AGENT cfg else SUB_AGENT cfg)
               (\<lparr>role = ''system'',
                 content = (if d = MAX_DEPTH cfg then LEAF_AGENT_SYSTEM_PROMPT env
                            else SYSTEM_PROMPT env),
                 reasoning = None\<rparr> # messages run)
             \<longrightarrow> iteration cfg (env\<lparr>create_completion := provider\<rparr>) q c d i run world =
                 iteration cfg env q c d i run world)"
proof -
  have "prompts_ok cfg env w" using assms by (simp add: prompts_ok_def)
  then have "prompts_ok cfg env (snd (subagent cfg env ctx subagent_depth w))"
    by (rule subagent_prompts_ok)
  then have ok: "\<forall>req \<in> set (requests (snd (subagent cfg env ctx subagent_depth w))).
      prompt_ok cfg env req"
    by (simp add: prompts_ok_def list_all_iff)
  have first: "\<forall>(d, model, msgs) \<in> set (requests (snd (subagent cfg env ctx subagent_depth w))).
           \<exists>rest. msgs =
             \<lparr>role = ''system'',
              content = (if d = MAX_DEPTH cfg then LEAF_AGENT_SYSTEM_PROMPT env
                         else SYSTEM_PROMPT env),
              reasoning = None\<rparr> # rest"
  proof clarify
    fix d model msgs
    assume "(d, model, msgs) \<in> set (requests (snd (subagent cfg env ctx subagent_depth w)))"
    with ok have "prompt_ok cfg env (d, model, msgs)" by blast
    then show "\<exists>rest. msgs =
             \<lparr>role = ''system'',
              content = (if d = MAX_DEPTH cfg then LEAF_AGENT_SYSTEM_PROMPT env
                         else SYSTEM_PROMPT env),
              reasoning = None\<rparr> # rest"
      by (cases msgs) (simp_all add: prompt_ok_def system_message_def)
  qed
  have second: "\<forall>provider.
             provider (if d = 0 then PRIMARY_AGENT cfg else SUB_AGENT cfg)
               (\<lparr>role = ''system'',
                 content = (if d = MAX_DEPTH cfg then LEAF_AGENT_SYSTEM_PROMPT env
                            else SYSTEM_PROMPT env),
                 reasoning = None\<rparr> # messages run) =
             create_completion env (if d = 0 then PRIMARY_AGENT cfg else SUB_AGENT cfg)
               (\<lparr>role = ''system'',
                 content = (if d = MAX_DEPTH cfg then LEAF_AGENT_SYSTEM_PROMPT env
                            else SYSTEM_PROMPT env),
                 reasoning = None\<rparr> # messages run)
             \<longrightarrow> iteration cfg (env\<lparr>create_completion := provider\<rparr>) q c d i run world =
                 iteration cfg env q c d i run world"
    by (intro allI impI iteration_provider)
  show ?thesis using first second by (rule conjI)
qed

theorem system_prompt_by_depth_witness:
  "requests initial_world = []
   \<and> requests (snd (subagent example_cfg env_spawn ''task'' 0 initial_world)) =
       [(0, ''root-model'',
         [\<lparr>role = ''system'', content = ''standard prompt'', reasoning = None\<rparr>,
          first_message example_cfg env_spawn (''task'' @ newline)]),
        (1, ''sub-model'',
         [\<lparr>role = ''system'', content = ''leaf prompt'', reasoning = None\<rparr>,
          first_message example_cfg env_spawn (''part'' @ newline)])]
   \<and> MAX_DEPTH example_cfg = 1
   \<and> (\<exists>rest. [\<lparr>role = ''system'', content = ''leaf prompt'', reasoning = None\<rparr>,
          first_message example_cfg env_spawn (''part'' @ newline)] =
         \<lparr>role = ''system'', content = LEAF_AGENT_SYSTEM_PROMPT env_spawn, reasoning = None\<rparr> # rest)
   \<and> (\<exists>rest. [\<lparr>role = ''system'', content = ''standard prompt'', reasoning = None\<rparr>,
          first_message example_cfg env_spawn (''task'' @ newline)] =
         \<lparr>role = ''system'', content = SYSTEM_PROMPT env_spawn, reasoning = None\<rparr> # rest)
   \<and> iteration example_cfg (env_spawn\<lparr>create_completion := leaf_only_provider\<rparr>)
        (llm_query example_cfg (subagent example_cfg env_spawn) 1) ''part'' 1 0
        example_run initial_world =
      iteration example_cfg env_spawn
        (llm_query example_cfg (subagent example_cfg env_spawn) 1) ''part'' 1 0
        example_run initial_world"
proof -
  have h: "requests initial_world = []" by (simp add: initial_world_def)
  have r: "requests (snd (subagent example_cfg env_spawn ''task'' 0 initial_world)) =
       [(0, ''root-model'',
         [\<lparr>role = ''system'', content = ''standard prompt'', reasoning = None\<rparr>,
          first_message example_cfg env_spawn (''task'' @ newline)]),
        (1, ''sub-model'',
         [\<lparr>role = ''system'', content = ''leaf prompt'', reasoning = None\<rparr>,
          first_message example_cfg env_spawn (''part'' @ newline)])]"
    by code_simp
  have d: "MAX_DEPTH example_cfg = 1" by (simp add: example_cfg_def)
  note t = system_prompt_by_depth[OF h, where cfg = example_cfg and env = env_spawn
      and ctx = "''task''" and subagent_depth = 0 and d = 1 and run = example_run
      and q = "llm_query example_cfg (subagent example_cfg env_spawn) 1" and i = 0
      and world = initial_world and c = "''part''"]
  note t1 = t[THEN conjunct1, unfolded r]
  have leaf: "\<exists>rest. [\<lparr>role = ''system'', content = ''leaf prompt'', reasoning = None\<rparr>,
          first_message example_cfg env_spawn (''part'' @ newline)] =
         \<lparr>role = ''system'', content = LEAF_AGENT_SYSTEM_PROMPT env_spawn, reasoning = None\<rparr> # rest"
    using t1 d by simp
  have std: "\<exists>rest. [\<lparr>role = ''system'', content = ''standard prompt'', reasoning = None\<rparr>,
          first_message example_cfg env_spawn (''task'' @ newline)] =
         \<lparr>role = ''system'', content = SYSTEM_PROMPT env_spawn, reasoning = None\<rparr> # rest"
    using t1 d by simp
  have p: "leaf_only_provider (if (1::int) = 0 then PRIMARY_AGENT example_cfg else SUB_AGENT example_cfg)
               (\<lparr>role = ''system'',
                 content = (if 1 = MAX_DEPTH example_cfg then LEAF_AGENT_SYSTEM_PROMPT env_spawn
                            else SYSTEM_PROMPT env_spawn),
                 reasoning = None\<rparr> # messages example_run) =
           create_completion env_spawn (if (1::int) = 0 then PRIMARY_AGENT example_cfg else SUB_AGENT example_cfg)
               (\<lparr>role = ''system'',
                 content = (if 1 = MAX_DEPTH example_cfg then LEAF_AGENT_SYSTEM_PROMPT env_spawn
                            else SYSTEM_PROMPT env_spawn),
                 reasoning = None\<rparr> # messages example_run)"
    by (simp add: leaf_only_provider_def example_cfg_def env_spawn_def example_env_def example_run_def)
  have it: "iteration example_cfg (env_spawn\<lparr>create_completion := leaf_only_provider\<rparr>)
        (llm_query example_cfg (subagent example_cfg env_spawn) 1) ''part'' 1 0
        example_run initial_world =
      iteration example_cfg env_spawn
        (llm_query example_cfg (subagent example_cfg env_spawn) 1) ''part'' 1 0
        example_run initial_world"
    using t[THEN conjunct2, THEN spec, of leaf_only_provider] p by simp
  show ?thesis using h r d leaf std it by simp
qed

end
